theory Spec2Isabelle
  imports Complex_Main "HOL-Library.Word"
begin

section \<open>Values of the JavaScript runtime\<close>

text \<open>
  A JavaScript string is a sequence of UTF-16 code units; \<open>length\<close>, \<open>slice\<close> and
  \<open>trim\<close> count and cut code units.
\<close>

type_synonym code_unit = "16 word"
type_synonym jsstring = "code_unit list"

definition js :: "string \<Rightarrow> jsstring" where
  "js s = map (\<lambda>c. of_nat (of_char c)) s"

text \<open>
  A JavaScript number that the handlers read: \<open>Number(v)\<close> is \<open>NaN\<close>, an infinity or
  a finite double, and every finite double is a rational.
\<close>

datatype jsnum = NaN | PosInfinity | NegInfinity | Finite rat

fun Number_isFinite :: "jsnum \<Rightarrow> bool" where
  "Number_isFinite (Finite v) = True"
| "Number_isFinite _ = False"

text \<open>
  The values \<open>payload?.message\<close> can hold after \<open>JSON.parse\<close>.
\<close>

datatype jsval = JUndefined | JNull | JBool bool | JNum jsnum | JStr jsstring | JObject

fun truthy :: "jsval \<Rightarrow> bool" where
  "truthy JUndefined = False"
| "truthy JNull = False"
| "truthy (JBool b) = b"
| "truthy (JNum NaN) = False"
| "truthy (JNum (Finite v)) = (v \<noteq> 0)"
| "truthy (JNum _) = True"
| "truthy (JStr s) = (s \<noteq> [])"
| "truthy JObject = True"

text \<open>
  \<open>WhiteSpace\<close> and \<open>LineTerminator\<close> of ECMAScript: what \<open>String.prototype.trim\<close>
  strips and what \<open>\s\<close> matches.
\<close>

definition isWhiteSpace :: "code_unit \<Rightarrow> bool" where
  "isWhiteSpace c =
     (c = 0x9 \<or> c = 0xA \<or> c = 0xB \<or> c = 0xC \<or> c = 0xD \<or> c = 0x20 \<or> c = 0xA0
      \<or> c = 0x1680 \<or> (0x2000 \<le> c \<and> c \<le> 0x200A) \<or> c = 0x2028 \<or> c = 0x2029
      \<or> c = 0x202F \<or> c = 0x205F \<or> c = 0x3000 \<or> c = 0xFEFF)"

definition trim :: "jsstring \<Rightarrow> jsstring" where
  "trim s = rev (dropWhile isWhiteSpace (rev (dropWhile isWhiteSpace s)))"

text \<open>\<open>s.slice(0, n)\<close>.\<close>

definition slice0 :: "nat \<Rightarrow> jsstring \<Rightarrow> jsstring" where
  "slice0 n s = take n s"

text \<open>\<open>Math.round\<close> on a finite number: the nearest integer, ties towards \<open>+\<infinity>\<close>.\<close>

definition Math_round :: "rat \<Rightarrow> int" where
  "Math_round v = \<lfloor>v + 1 / 2\<rfloor>"

definition Math_floor :: "rat \<Rightarrow> int" where
  "Math_floor v = \<lfloor>v\<rfloor>"

section \<open>Configuration\<close>

definition ROOM_width :: int where "ROOM_width = 1600"
definition ROOM_height :: int where "ROOM_height = 900"
definition MOVE_RATE_LIMIT_MS :: int where "MOVE_RATE_LIMIT_MS = 12"
definition CHAT_RATE_LIMIT_MS :: int where "CHAT_RATE_LIMIT_MS = 1000"
definition MAX_MESSAGE_LENGTH :: nat where "MAX_MESSAGE_LENGTH = 200"
definition CONNECTION_TTL_MS :: int where "CONNECTION_TTL_MS = 30000"
definition PROXIMITY_RADIUS :: int where "PROXIMITY_RADIUS = 200"

text \<open>The literal \<open>32\<close> of \<open>name.slice(0, 32)\<close> in the \<open>join\<close> and \<open>rename\<close> cases.\<close>

definition MAX_NAME_LENGTH :: nat where "MAX_NAME_LENGTH = 32"

section \<open>State\<close>

text \<open>
  The \<open>Participant\<close> of the source, its fields prefixed (\<open>id\<close> is the identity
  function of HOL); \<open>x\<close> and \<open>y\<close> only ever hold integers, and \<open>lastSeen\<close> a
  \<open>Date.now()\<close>. The second record is what \<open>toClientParticipant\<close> builds.
\<close>

record participant =
  p_id :: jsstring
  p_name :: jsstring
  p_x :: int
  p_y :: int
  p_color :: jsstring
  p_lastSeen :: int

record client_participant =
  c_id :: jsstring
  c_name :: jsstring
  c_x :: int
  c_y :: int
  c_color :: jsstring

datatype ready_state = CONNECTING | OPEN | CLOSING | CLOSED

text \<open>
  One accepted connection: the \<open>ws\<close> object with the fields the server reads and sets,
  and the variables of the \<open>connection\<close> closure. \<open>ws_ref\<close> is the identity of the
  object (what \<open>client !== exceptWs\<close> compares) and also the address of the closure's
  participant object \<open>p\<close> in the heap. \<open>participantId\<close> is \<open>ws._participantId\<close>, which
  is the closure's \<open>id\<close>: both are set once from the same value.
\<close>

record ws =
  ws_ref :: nat
  readyState :: ready_state
  isAlive :: bool
  participantId :: jsstring
  lastMoveAt :: int
  lastChatAt :: int

text \<open>
  The server: \<open>clients\<close> is \<open>wss.clients\<close> in insertion order; \<open>participants\<close> is the
  \<open>Map\<close> in insertion order, each key with the address of the object it holds; \<open>heap\<close>
  holds the participant objects, so that a write through the closure's \<open>p\<close> is seen
  through the \<open>Map\<close> and an object deleted from the \<open>Map\<close> lives on in its closure.
\<close>

record server =
  clients :: "ws list"
  participants :: "(jsstring \<times> nat) list"
  heap :: "nat \<Rightarrow> participant"
  nextRef :: nat

section \<open>The Map operations\<close>

definition Map_has :: "jsstring \<Rightarrow> (jsstring \<times> nat) list \<Rightarrow> bool" where
  "Map_has k m = (k \<in> set (map fst m))"

definition Map_set :: "jsstring \<Rightarrow> nat \<Rightarrow> (jsstring \<times> nat) list \<Rightarrow> (jsstring \<times> nat) list" where
  "Map_set k v m =
     (if Map_has k m then map (\<lambda>e. if fst e = k then (k, v) else e) m else m @ [(k, v)])"

definition Map_delete :: "jsstring \<Rightarrow> (jsstring \<times> nat) list \<Rightarrow> (jsstring \<times> nat) list" where
  "Map_delete k m = filter (\<lambda>e. fst e \<noteq> k) m"

definition Map_get :: "jsstring \<Rightarrow> (jsstring \<times> nat) list \<Rightarrow> nat option" where
  "Map_get k m = map_of m k"

text \<open>\<open>Array.from(participants.values())\<close>.\<close>

definition values_of :: "server \<Rightarrow> participant list" where
  "values_of st = map (\<lambda>e. heap st (snd e)) (participants st)"

section \<open>Utilities\<close>

definition clamp :: "int \<Rightarrow> int \<Rightarrow> int \<Rightarrow> int" where
  "clamp v mn mx = max mn (min mx v)"

definition toClientParticipant :: "participant \<Rightarrow> client_participant" where
  "toClientParticipant p =
     \<lparr>c_id = p_id p, c_name = p_name p, c_x = p_x p, c_y = p_y p, c_color = p_color p\<rparr>"

text \<open>The test of both proximity loops on a source \<open>p\<close> and an entry \<open>[id2, q]\<close>.\<close>

definition within_radius :: "participant \<Rightarrow> participant \<Rightarrow> bool" where
  "within_radius p q =
     (let dx = p_x p - p_x q; dy = p_y p - p_y q
      in dx * dx + dy * dy \<le> PROXIMITY_RADIUS * PROXIMITY_RADIUS)"

definition calcNearby :: "server \<Rightarrow> participant \<Rightarrow> jsstring list" where
  "calcNearby st p =
     map fst (filter (\<lambda>e. p_id p \<noteq> fst e \<and> within_radius p (heap st (snd e))) (participants st))"

definition getProximityParticipants :: "server \<Rightarrow> participant \<Rightarrow> participant list" where
  "getProximityParticipants st sourceParticipant =
     map (\<lambda>e. heap st (snd e))
       (filter (\<lambda>e. p_id sourceParticipant \<noteq> fst e
                  \<and> within_radius sourceParticipant (heap st (snd e))) (participants st))"

section \<open>Frames sent to clients\<close>

text \<open>
  The \<open>type\<close> and \<open>payload\<close> of a frame the server sends. The \<open>ts\<close> field of the
  envelope is left out: no handler reads it.
\<close>

datatype msg =
    Welcome jsstring int int
  | State "client_participant list"
  | Joined client_participant
  | Moved jsstring int int
  | Renamed jsstring jsstring
  | Left jsstring
  | Pong
  | Proximity jsstring "jsstring list"
  | ChatMsg jsstring jsstring jsstring int
  | ChatError jsstring

text \<open>A delivery: the socket \<open>send\<close> is called on, and the frame.\<close>

type_synonym delivery = "nat \<times> msg"

definition snapshot :: "server \<Rightarrow> client_participant list" where
  "snapshot st = map toClientParticipant (values_of st)"

definition send :: "ws \<Rightarrow> msg \<Rightarrow> delivery list" where
  "send w m = (if readyState w = OPEN then [(ws_ref w, m)] else [])"

definition broadcast :: "server \<Rightarrow> msg \<Rightarrow> nat option \<Rightarrow> delivery list" where
  "broadcast st m exceptWs =
     map (\<lambda>client. (ws_ref client, m))
       (filter (\<lambda>client. readyState client = OPEN \<and> Some (ws_ref client) \<noteq> exceptWs)
          (clients st))"

definition sendProximity :: "server \<Rightarrow> ws \<Rightarrow> participant \<Rightarrow> delivery list" where
  "sendProximity st w p = send w (Proximity (p_id p) (calcNearby st p))"

definition belongs_to_target :: "server \<Rightarrow> participant list \<Rightarrow> ws \<Rightarrow> bool" where
  "belongs_to_target st targetParticipants client =
     (case find (\<lambda>p. participantId client = p_id p) (values_of st) of
        None \<Rightarrow> False
      | Some clientParticipant \<Rightarrow>
          list_ex (\<lambda>p. p_id p = p_id clientParticipant) targetParticipants)"

definition sendToParticipants ::
  "server \<Rightarrow> msg \<Rightarrow> participant list \<Rightarrow> nat option \<Rightarrow> delivery list" where
  "sendToParticipants st m targetParticipants exceptWs =
     map (\<lambda>client. (ws_ref client, m))
       (filter (\<lambda>client. readyState client = OPEN \<and> Some (ws_ref client) \<noteq> exceptWs
                  \<and> belongs_to_target st targetParticipants client)
          (clients st))"

section \<open>Chat sanitising\<close>

text \<open>\<open>replace(/\s+/g, ' ')\<close>: every maximal run of white space becomes one space.\<close>

function collapse_ws :: "jsstring \<Rightarrow> jsstring" where
  "collapse_ws [] = []"
| "collapse_ws (c # cs) =
     (if isWhiteSpace c then 0x20 # collapse_ws (dropWhile isWhiteSpace cs)
      else c # collapse_ws cs)"
  by pat_completeness auto
termination
  by (relation "measure length") (auto simp: length_dropWhile_le less_Suc_eq_le)

definition sanitizeMessage :: "jsval \<Rightarrow> jsstring" where
  "sanitizeMessage text =
     (case text of
        JStr s \<Rightarrow>
          collapse_ws
            (filter (\<lambda>c. c \<noteq> 0x3C \<and> c \<noteq> 0x3E) (slice0 MAX_MESSAGE_LENGTH (trim s)))
      | _ \<Rightarrow> [])"

section \<open>Inbound frames\<close>

text \<open>
  What the \<open>message\<close> handler reads of a frame once \<open>JSON.parse\<close> has succeeded: the
  \<open>type\<close>, and of the payload the value each case coerces:
  \<open>String(payload?.name ?? "")\<close> for \<open>join\<close> and \<open>rename\<close>, \<open>Number(payload?.x)\<close> and
  \<open>Number(payload?.y)\<close> for \<open>move\<close>, the raw \<open>payload?.message\<close> for \<open>chat\<close>.
\<close>

datatype frame =
    Join jsstring
  | Move jsnum jsnum
  | Rename jsstring
  | Ping
  | Chat jsval
  | Unknown

text \<open>\<open>Malformed\<close>: \<open>JSON.parse\<close> or the destructuring throws, and the handler's
  \<open>catch\<close> logs the error.\<close>

datatype inbound = Malformed | Frame frame

section \<open>Connection lifecycle\<close>

definition get_ws :: "server \<Rightarrow> nat \<Rightarrow> ws option" where
  "get_ws st r = find (\<lambda>w. ws_ref w = r) (clients st)"

definition upd_ws :: "nat \<Rightarrow> (ws \<Rightarrow> ws) \<Rightarrow> server \<Rightarrow> server" where
  "upd_ws r f st = st\<lparr>clients := map (\<lambda>w. if ws_ref w = r then f w else w) (clients st)\<rparr>"

definition upd_p :: "nat \<Rightarrow> (participant \<Rightarrow> participant) \<Rightarrow> server \<Rightarrow> server" where
  "upd_p r f st = st\<lparr>heap := (heap st)(r := f (heap st r))\<rparr>"

text \<open>
  \<open>randomSpawn\<close>, from the two values of \<open>Math.random()\<close>. The products are taken
  exactly, where the code rounds each to a double before \<open>Math.floor\<close>: for a product
  within half an ulp below an integer the code spawns one unit further. The rounding
  is monotone, so both lie between \<open>0\<close> and the size of the room, and every spawn
  position of the code is one of the model.
\<close>

definition randomSpawn :: "rat \<Rightarrow> rat \<Rightarrow> int \<times> int" where
  "randomSpawn rx ry =
     (Math_floor (rx * of_int ROOM_width), Math_floor (ry * of_int ROOM_height))"

text \<open>
  \<open>wss.on("connection")\<close>. The environment supplies \<open>makeId()\<close>, the two values of
  \<open>Math.random()\<close> that \<open>randomSpawn\<close> draws, \<open>randomColor()\<close> and \<open>now()\<close>. The
  library has added the open socket to \<open>wss.clients\<close> before the handler runs.
\<close>

definition on_connection ::
  "server \<Rightarrow> jsstring \<Rightarrow> rat \<Rightarrow> rat \<Rightarrow> jsstring \<Rightarrow> int \<Rightarrow> server \<times> delivery list" where
  "on_connection st ident rx ry col t =
     (let r = nextRef st;
          w = \<lparr>ws_ref = r, readyState = OPEN, isAlive = True, participantId = ident,
               lastMoveAt = 0, lastChatAt = 0\<rparr>;
          spawn = randomSpawn rx ry;
          p = \<lparr>p_id = ident, p_name = js ''Guest-'' @ slice0 5 ident,
               p_x = fst spawn, p_y = snd spawn, p_color = col, p_lastSeen = t\<rparr>;
          st1 = st\<lparr>clients := clients st @ [w],
                   participants := Map_set ident r (participants st),
                   heap := (heap st)(r := p),
                   nextRef := Suc r\<rparr>
      in (st1,
          send w (Welcome ident ROOM_width ROOM_height)
          @ send w (State (snapshot st1))
          @ broadcast st1 (Joined (toClientParticipant p)) (Some r)))"

definition on_join :: "server \<Rightarrow> ws \<Rightarrow> jsstring \<Rightarrow> server \<times> delivery list" where
  "on_join st w payload_name =
     (let r = ws_ref w; ident = participantId w; name = trim payload_name
      in if name \<noteq> [] then
           (let st1 = upd_p r (\<lambda>p. p\<lparr>p_name := slice0 MAX_NAME_LENGTH name\<rparr>) st;
                st2 = st1\<lparr>participants := Map_set ident r (participants st1)\<rparr>
            in (st2,
                send w (State (snapshot st2))
                @ broadcast st2 (Renamed ident (p_name (heap st2 r))) (Some r)))
         else (st, []))"

definition on_move :: "server \<Rightarrow> ws \<Rightarrow> int \<Rightarrow> jsnum \<Rightarrow> jsnum \<Rightarrow> server \<times> delivery list" where
  "on_move st w t nx ny =
     (let r = ws_ref w; ident = participantId w
      in if t - lastMoveAt w < MOVE_RATE_LIMIT_MS then (st, [])
         else
           (let st1 = upd_ws r (\<lambda>c. c\<lparr>lastMoveAt := t\<rparr>) st
            in case (nx, ny) of
                 (Finite vx, Finite vy) \<Rightarrow>
                   (let x = clamp (Math_round vx) 0 ROOM_width;
                        y = clamp (Math_round vy) 0 ROOM_height
                    in if x = p_x (heap st1 r) \<and> y = p_y (heap st1 r) then (st1, [])
                       else
                         (let st2 = upd_p r (\<lambda>p. p\<lparr>p_x := x, p_y := y\<rparr>) st1;
                              st3 = st2\<lparr>participants := Map_set ident r (participants st2)\<rparr>
                          in (st3,
                              broadcast st3 (Moved ident x y) (Some r)
                              @ sendProximity st3 w (heap st3 r))))
               | _ \<Rightarrow> (st1, [])))"

definition on_rename :: "server \<Rightarrow> ws \<Rightarrow> jsstring \<Rightarrow> server \<times> delivery list" where
  "on_rename st w payload_name =
     (let r = ws_ref w; ident = participantId w; name = trim payload_name
      in if name = [] then (st, [])
         else
           (let newName = slice0 MAX_NAME_LENGTH name
            in if newName \<noteq> p_name (heap st r) then
                 (let st1 = upd_p r (\<lambda>p. p\<lparr>p_name := newName\<rparr>) st;
                      st2 = st1\<lparr>participants := Map_set ident r (participants st1)\<rparr>
                  in (st2, broadcast st2 (Renamed ident (p_name (heap st2 r))) None))
               else (st, [])))"

definition on_chat :: "server \<Rightarrow> ws \<Rightarrow> int \<Rightarrow> jsval \<Rightarrow> server \<times> delivery list" where
  "on_chat st w currentTime rawMessage =
     (let r = ws_ref w; ident = participantId w
      in if currentTime - lastChatAt w < CHAT_RATE_LIMIT_MS then (st, [])
         else
           (let st1 = upd_ws r (\<lambda>c. c\<lparr>lastChatAt := currentTime\<rparr>) st
            in if \<not> truthy rawMessage then (st1, [])
               else
                 (let sanitizedMessage = sanitizeMessage rawMessage
                  in if sanitizedMessage = [] then (st1, [])
                     else
                       (case Map_get ident (participants st1) of
                          None \<Rightarrow> (st1, [])
                        | Some a \<Rightarrow>
                            (let sender = heap st1 a;
                                 nearbyParticipants = getProximityParticipants st1 sender
                             in if nearbyParticipants = [] then
                                  (st1, send w (ChatError (js ''No one nearby to chat with'')))
                                else
                                  (st1,
                                   sendToParticipants st1
                                     (ChatMsg (p_id sender) (p_name sender)
                                        sanitizedMessage currentTime)
                                     (sender # nearbyParticipants) None))))))"

text \<open>\<open>p.lastSeen = now(); ws.isAlive = true;\<close> on the connection \<open>r\<close>.\<close>

definition touch :: "nat \<Rightarrow> int \<Rightarrow> server \<Rightarrow> server" where
  "touch r seen st =
     upd_ws r (\<lambda>c. c\<lparr>isAlive := True\<rparr>) (upd_p r (\<lambda>p. p\<lparr>p_lastSeen := seen\<rparr>) st)"

text \<open>
  \<open>ws.on("message")\<close> of the connection \<open>r\<close>. \<open>seen\<close> is the \<open>now()\<close> stored in
  \<open>p.lastSeen\<close>, \<open>t\<close> the later \<open>now()\<close> that the \<open>move\<close> and \<open>chat\<close> cases read. The
  socket handed to the cases is read after the liveness update, which leaves its
  \<open>readyState\<close> and the closure's variables as they were.
\<close>

definition on_message ::
  "server \<Rightarrow> nat \<Rightarrow> int \<Rightarrow> int \<Rightarrow> inbound \<Rightarrow> server \<times> delivery list" where
  "on_message st r seen t data =
     (case get_ws st r of
        None \<Rightarrow> (st, [])
      | Some w0 \<Rightarrow>
          (case data of
             Malformed \<Rightarrow> (st, [])
           | Frame f \<Rightarrow>
               (let st1 = touch r seen st;
                    w = w0\<lparr>isAlive := True\<rparr>
                in case f of
                     Join n \<Rightarrow> on_join st1 w n
                   | Move nx ny \<Rightarrow> on_move st1 w t nx ny
                   | Rename n \<Rightarrow> on_rename st1 w n
                   | Ping \<Rightarrow> (st1, send w Pong)
                   | Chat m \<Rightarrow> on_chat st1 w t m
                   | Unknown \<Rightarrow> (st1, []))))"

text \<open>\<open>ws.on("pong")\<close>. The handler of \<open>ws.on("error")\<close> is empty: an \<open>ErrorEv\<close>
  below changes nothing, and the library follows it with \<open>close\<close>.\<close>

definition on_pong :: "server \<Rightarrow> nat \<Rightarrow> int \<Rightarrow> server" where
  "on_pong st r t =
     (case get_ws st r of
        None \<Rightarrow> st
      | Some w \<Rightarrow>
          upd_p r (\<lambda>p. p\<lparr>p_lastSeen := t\<rparr>) (upd_ws r (\<lambda>c. c\<lparr>isAlive := True\<rparr>) st))"

text \<open>
  \<open>ws.on("close")\<close>. The library emits \<open>close\<close> once for a socket, and its own
  listener, registered first, has taken the socket out of \<open>wss.clients\<close> when the
  handler of the server runs.
\<close>

definition on_close :: "server \<Rightarrow> nat \<Rightarrow> server \<times> delivery list" where
  "on_close st r =
     (case get_ws st r of
        None \<Rightarrow> (st, [])
      | Some w \<Rightarrow>
          (let st1 = st\<lparr>clients := filter (\<lambda>c. ws_ref c \<noteq> r) (clients st)\<rparr>;
               st2 = st1\<lparr>participants := Map_delete (participantId w) (participants st1)\<rparr>
           in (st2, broadcast st2 (Left (participantId w)) None)))"

section \<open>Heartbeat\<close>

text \<open>
  \<open>ws.terminate()\<close> of the library: a socket that is not yet closed becomes
  \<open>CLOSING\<close>; its \<open>close\<close> event comes later, as an event of its own.
\<close>

definition terminate :: "ws \<Rightarrow> ws" where
  "terminate w = (if readyState w = CLOSED then w else w\<lparr>readyState := CLOSING\<rparr>)"

text \<open>
  The body of \<open>wss.clients.forEach\<close>. \<open>ping_throws\<close> says for which sockets
  \<open>ws.ping()\<close> throws. The ping is a control frame of the transport and is not among
  the deliveries.
\<close>

definition probe :: "(nat \<Rightarrow> bool) \<Rightarrow> ws \<Rightarrow> ws" where
  "probe ping_throws w =
     (if \<not> isAlive w then terminate w
      else (let w1 = w\<lparr>isAlive := False\<rparr>
            in if ping_throws (ws_ref w1) then terminate w1 else w1))"

text \<open>
  The eviction loop over the entries of the \<open>Map\<close>: deleting the entry under the
  iterator leaves the others to be visited.
\<close>

fun evict :: "int \<Rightarrow> (jsstring \<times> nat) list \<Rightarrow> server \<Rightarrow> server \<times> delivery list" where
  "evict cutoff [] st = (st, [])"
| "evict cutoff (e # es) st =
     (if p_lastSeen (heap st (snd e)) < cutoff then
        (let st1 = st\<lparr>participants := Map_delete (fst e) (participants st)\<rparr>;
             out = broadcast st1 (Left (fst e)) None;
             rest = evict cutoff es st1
         in (fst rest, out @ snd rest))
      else evict cutoff es st)"

definition heartbeat :: "server \<Rightarrow> int \<Rightarrow> (nat \<Rightarrow> bool) \<Rightarrow> server \<times> delivery list" where
  "heartbeat st t ping_throws =
     (let st1 = st\<lparr>clients := map (probe ping_throws) (clients st)\<rparr>;
          cutoff = t - CONNECTION_TTL_MS
      in evict cutoff (participants st1) st1)"

section \<open>Executions\<close>

datatype event =
    Connection jsstring rat rat jsstring int
  | Message nat int int inbound
  | PongEv nat int
  | Close nat
  | ErrorEv nat
  | Heartbeat int "nat \<Rightarrow> bool"

fun step :: "server \<Rightarrow> event \<Rightarrow> server \<times> delivery list" where
  "step st (Connection ident rx ry col t) = on_connection st ident rx ry col t"
| "step st (Message r seen t data) = on_message st r seen t data"
| "step st (PongEv r t) = (on_pong st r t, [])"
| "step st (Close r) = on_close st r"
| "step st (ErrorEv r) = (st, [])"
| "step st (Heartbeat t ping_throws) = heartbeat st t ping_throws"

text \<open>Running a list of events, collecting every delivery in order.\<close>

fun run :: "server \<Rightarrow> event list \<Rightarrow> server \<times> delivery list" where
  "run st [] = (st, [])"
| "run st (e # es) =
     (let a = step st e; b = run (fst a) es in (fst b, snd a @ snd b))"

definition no_participant :: participant where
  "no_participant =
     \<lparr>p_id = [], p_name = [], p_x = 0, p_y = 0, p_color = [], p_lastSeen = 0\<rparr>"

text \<open>The server at start: no client, an empty \<open>Map\<close>, nothing allocated.\<close>

definition init :: server where
  "init = \<lparr>clients = [], participants = [], heap = (\<lambda>_. no_participant), nextRef = 0\<rparr>"

text \<open>
  What the environment may do: \<open>Math.random()\<close> is in \<open>[0, 1)\<close>, and a socket has
  events only while it is in \<open>wss.clients\<close>.
\<close>

fun enabled :: "server \<Rightarrow> event \<Rightarrow> bool" where
  "enabled st (Connection ident rx ry col t) = (0 \<le> rx \<and> rx < 1 \<and> 0 \<le> ry \<and> ry < 1)"
| "enabled st (Message r seen t data) = (get_ws st r \<noteq> None)"
| "enabled st (PongEv r t) = (get_ws st r \<noteq> None)"
| "enabled st (Close r) = (get_ws st r \<noteq> None)"
| "enabled st (ErrorEv r) = (get_ws st r \<noteq> None)"
| "enabled st (Heartbeat t ping_throws) = True"

inductive reachable :: "server \<Rightarrow> bool" where
  reachable_init: "reachable init"
| reachable_step: "reachable st \<Longrightarrow> enabled st e \<Longrightarrow> reachable (fst (step st e))"

section \<open>Notions used in the statements\<close>

text \<open>The two invariants of a participant object.\<close>

definition in_room :: "participant \<Rightarrow> bool" where
  "in_room p = (0 \<le> p_x p \<and> p_x p \<le> ROOM_width \<and> 0 \<le> p_y p \<and> p_y p \<le> ROOM_height)"

definition name_ok :: "participant \<Rightarrow> bool" where
  "name_ok p = (length (p_name p) \<le> MAX_NAME_LENGTH)"

text \<open>The closure's participant object of connection \<open>r\<close> after one frame.\<close>

definition after_move :: "server \<Rightarrow> nat \<Rightarrow> int \<Rightarrow> int \<Rightarrow> rat \<Rightarrow> rat \<Rightarrow> participant" where
  "after_move st r seen t vx vy =
     heap (fst (on_message st r seen t (Frame (Move (Finite vx) (Finite vy))))) r"

definition after_join :: "server \<Rightarrow> nat \<Rightarrow> int \<Rightarrow> int \<Rightarrow> jsstring \<Rightarrow> participant" where
  "after_join st r seen t n = heap (fst (on_message st r seen t (Frame (Join n)))) r"

definition after_rename :: "server \<Rightarrow> nat \<Rightarrow> int \<Rightarrow> int \<Rightarrow> jsstring \<Rightarrow> participant" where
  "after_rename st r seen t n = heap (fst (on_message st r seen t (Frame (Rename n)))) r"

text \<open>The sockets a broadcast reaches, in the order of \<open>wss.clients\<close>.\<close>

definition open_refs :: "server \<Rightarrow> nat list" where
  "open_refs st = map ws_ref (filter (\<lambda>c. readyState c = OPEN) (clients st))"

text \<open>Each socket of \<open>wss.clients\<close> with the participant id of its closure.\<close>

definition sock_ids :: "server \<Rightarrow> (nat \<times> jsstring) list" where
  "sock_ids st = map (\<lambda>c. (ws_ref c, participantId c)) (clients st)"

text \<open>
  Well-formed states: sockets are distinct objects, the \<open>Map\<close> has each key once,
  every address in use is allocated, the closure's object carries the closure's
  \<open>id\<close>, and each key of the \<open>Map\<close> holds an object with that id.
\<close>

definition wf :: "server \<Rightarrow> bool" where
  "wf st =
     (distinct (map fst (sock_ids st)) \<and> distinct (map fst (participants st))
      \<and> (\<forall>s \<in> set (sock_ids st). fst s < nextRef st \<and> p_id (heap st (fst s)) = snd s)
      \<and> (\<forall>e \<in> set (participants st). snd e < nextRef st \<and> p_id (heap st (snd e)) = fst e))"

text \<open>The frame the sender of a chat is to see when nobody is near.\<close>

definition no_one_nearby :: msg where
  "no_one_nearby = ChatError (js ''No one nearby to chat with'')"

text \<open>The sockets a chat of the participant \<open>sender\<close> reaches, in the order of
  \<open>wss.clients\<close>: the open ones whose participant id is the sender's or a nearby one.\<close>

definition chat_audience :: "server \<Rightarrow> participant \<Rightarrow> nat list" where
  "chat_audience st sender =
     map ws_ref
       (filter (\<lambda>c. readyState c = OPEN
                  \<and> participantId c \<in> insert (p_id sender) (set (calcNearby st sender)))
          (clients st))"

text \<open>The rate-limiter timestamps of the connection \<open>r\<close>, if it is still a client.\<close>

definition move_gate :: "server \<Rightarrow> nat \<Rightarrow> int option" where
  "move_gate st r = map_option lastMoveAt (get_ws st r)"

definition chat_gate :: "server \<Rightarrow> nat \<Rightarrow> int option" where
  "chat_gate st r = map_option lastChatAt (get_ws st r)"

text \<open>
  The events that are neither a \<open>move\<close> frame (for the chat gate: a \<open>chat\<close> frame) on
  the connection \<open>r\<close> nor its close: everything that happens on other connections,
  the heartbeat, and the other frames of \<open>r\<close> itself.
\<close>

fun spares_move_gate :: "nat \<Rightarrow> event \<Rightarrow> bool" where
  "spares_move_gate r (Message r' seen t (Frame (Move nx ny))) = (r' \<noteq> r)"
| "spares_move_gate r (Close r') = (r' \<noteq> r)"
| "spares_move_gate r e = True"

fun spares_chat_gate :: "nat \<Rightarrow> event \<Rightarrow> bool" where
  "spares_chat_gate r (Message r' seen t (Frame (Chat m))) = (r' \<noteq> r)"
| "spares_chat_gate r (Close r') = (r' \<noteq> r)"
| "spares_chat_gate r e = True"

text \<open>Whether the sweep with the given cutoff evicts the entry \<open>e\<close> of the \<open>Map\<close>.\<close>

definition stale :: "server \<Rightarrow> int \<Rightarrow> jsstring \<times> nat \<Rightarrow> bool" where
  "stale st cutoff e = (p_lastSeen (heap st (snd e)) < cutoff)"

text \<open>A frame that tells of the id \<open>i\<close> as left, or as present in a snapshot.\<close>

fun tells_of :: "jsstring \<Rightarrow> msg \<Rightarrow> bool" where
  "tells_of i (Left k) = (k = i)"
| "tells_of i (State ps) = (i \<in> set (map c_id ps))"
| "tells_of i m = False"

text \<open>A connection whose \<open>makeId()\<close> returns \<open>i\<close>.\<close>

fun connects_as :: "jsstring \<Rightarrow> event \<Rightarrow> bool" where
  "connects_as i (Connection ident rx ry col t) = (ident = i)"
| "connects_as i e = False"

text \<open>The id \<open>i\<close> is that of no socket and no key of the \<open>Map\<close>, in a well-formed state.\<close>

definition gone :: "jsstring \<Rightarrow> server \<Rightarrow> bool" where
  "gone i st = (wf st \<and> i \<notin> snd ` set (sock_ids st) \<and> i \<notin> fst ` set (participants st))"

section \<open>Concrete states\<close>

text \<open>A participant named after its id, at a given position.\<close>

definition mk_p :: "jsstring \<Rightarrow> int \<Rightarrow> int \<Rightarrow> participant" where
  "mk_p i vx vy = \<lparr>p_id = i, p_name = i, p_x = vx, p_y = vy, p_color = [], p_lastSeen = 0\<rparr>"

text \<open>A at (100, 100), B at (250, 100) and C at (400, 100), no socket.\<close>

definition room3 :: server where
  "room3 = \<lparr>clients = [], participants = [(js ''A'', 0), (js ''B'', 1), (js ''C'', 2)],
     heap = (\<lambda>a. if a = 0 then mk_p (js ''A'') 100 100 else if a = 1 then mk_p (js ''B'') 250 100
                 else mk_p (js ''C'') 400 100), nextRef = 3\<rparr>"

text \<open>Forty code units: \<open>a\<close> thirty-three times between two spaces, then padding.\<close>

definition long_name :: jsstring where
  "long_name = js '' '' @ replicate 33 0x61 @ js ''   ''"

text \<open>A heartbeat in which no \<open>ws.ping()\<close> throws.\<close>

definition ping_never_throws :: "nat \<Rightarrow> bool" where
  "ping_never_throws r = False"

text \<open>The socket of A as the first connection leaves it.\<close>

definition socket_A :: ws where
  "socket_A = \<lparr>ws_ref = 0, readyState = OPEN, isAlive = True, participantId = js ''A'',
      lastMoveAt = 0, lastChatAt = 0\<rparr>"

text \<open>The sockets of B and C as their connections leave them.\<close>

definition socket_B :: ws where
  "socket_B = \<lparr>ws_ref = Suc 0, readyState = OPEN, isAlive = True, participantId = js ''B'',
      lastMoveAt = 0, lastChatAt = 0\<rparr>"

definition socket_C :: ws where
  "socket_C = \<lparr>ws_ref = 2, readyState = OPEN, isAlive = True, participantId = js ''C'',
      lastMoveAt = 0, lastChatAt = 0\<rparr>"

text \<open>The server after its first connection.\<close>

definition one_client :: server where
  "one_client = fst (step init (Connection (js ''A'') (1 / 2) (1 / 4) (js ''red'') 5))"

text \<open>The server after a second connection, B at (800, 300).\<close>

definition two_clients :: server where
  "two_clients = fst (step one_client (Connection (js ''B'') (1 / 2) (1 / 3) (js ''blue'') 7))"

text \<open>The server after a third connection, C at (200, 300).\<close>

definition three_clients :: server where
  "three_clients = fst (step two_clients (Connection (js ''C'') (1 / 8) (1 / 3) (js ''green'') 9))"

text \<open>B answers a ping at 35000, the heartbeat of 40000 finds A stale.\<close>

definition after_sweep :: server where
  "after_sweep = fst (run two_clients [PongEv (Suc 0) 35000, Heartbeat 40000 ping_never_throws])"

text \<open>What follows A's close in the witness: a heartbeat, a \<open>join\<close> of B, a new client D.\<close>

definition after_close_events :: "event list" where
  "after_close_events =
     [Heartbeat 40000 ping_never_throws,
      Message (Suc 0) 40001 40001 (Frame (Join (js ''Z''))),
      Connection (js ''D'') (1 / 2) (1 / 2) (js ''grey'') 40002]"

section \<open>Basic facts about the state updates\<close>

lemma heap_upd_ws [simp]: "heap (upd_ws r f st) = heap st"
  and participants_upd_ws [simp]: "participants (upd_ws r f st) = participants st"
  and nextRef_upd_ws [simp]: "nextRef (upd_ws r f st) = nextRef st"
  and clients_upd_ws: "clients (upd_ws r f st) = map (\<lambda>w. if ws_ref w = r then f w else w) (clients st)"
  by (simp_all add: upd_ws_def)

lemma clients_upd_p [simp]: "clients (upd_p r f st) = clients st"
  and participants_upd_p [simp]: "participants (upd_p r f st) = participants st"
  and nextRef_upd_p [simp]: "nextRef (upd_p r f st) = nextRef st"
  and heap_upd_p: "heap (upd_p r f st) = (heap st)(r := f (heap st r))"
  by (simp_all add: upd_p_def)

section \<open>Proximity\<close>

text \<open>
  C4. For every participant \<open>p\<close> and every registry, \<open>calcNearby\<close> returns exactly the
  keys other than \<open>p\<close>'s id whose participant lies at squared distance at most
  \<open>PROXIMITY_RADIUS\<^sup>2\<close> from \<open>p\<close>; \<open>p\<close>'s own id is never in the result; and
  \<open>getProximityParticipants\<close> returns exactly the participants of those entries.
\<close>

theorem nearby_exact:
  "set (calcNearby st p) =
     {k. \<exists>a. (k, a) \<in> set (participants st) \<and> k \<noteq> p_id p
          \<and> (p_x p - p_x (heap st a))\<^sup>2 + (p_y p - p_y (heap st a))\<^sup>2 \<le> PROXIMITY_RADIUS\<^sup>2}
   \<and> p_id p \<notin> set (calcNearby st p)
   \<and> set (getProximityParticipants st p) =
     {q. \<exists>k a. (k, a) \<in> set (participants st) \<and> k \<noteq> p_id p \<and> q = heap st a
          \<and> (p_x p - p_x q)\<^sup>2 + (p_y p - p_y q)\<^sup>2 \<le> PROXIMITY_RADIUS\<^sup>2}"
proof (intro conjI)
  show "set (calcNearby st p) =
     {k. \<exists>a. (k, a) \<in> set (participants st) \<and> k \<noteq> p_id p
          \<and> (p_x p - p_x (heap st a))\<^sup>2 + (p_y p - p_y (heap st a))\<^sup>2 \<le> PROXIMITY_RADIUS\<^sup>2}"
    by (force simp: calcNearby_def within_radius_def Let_def power2_eq_square)
  show "p_id p \<notin> set (calcNearby st p)"
    by (auto simp: calcNearby_def)
  show "set (getProximityParticipants st p) =
     {q. \<exists>k a. (k, a) \<in> set (participants st) \<and> k \<noteq> p_id p \<and> q = heap st a
          \<and> (p_x p - p_x q)\<^sup>2 + (p_y p - p_y q)\<^sup>2 \<le> PROXIMITY_RADIUS\<^sup>2}"
    by (force simp: getProximityParticipants_def within_radius_def Let_def power2_eq_square)
qed

theorem nearby_exact_witness:
  "set (calcNearby room3 (mk_p (js ''A'') 100 100)) = {js ''B''}
   \<and> js ''A'' \<notin> set (calcNearby room3 (mk_p (js ''A'') 100 100))"
  using nearby_exact [of room3 "mk_p (js ''A'') 100 100"]
  by (simp add: calcNearby_def room3_def mk_p_def js_def within_radius_def PROXIMITY_RADIUS_def)

section \<open>Invariants of the heap\<close>

lemma clamp_bounds: "mn \<le> mx \<Longrightarrow> mn \<le> clamp v mn mx \<and> clamp v mn mx \<le> mx"
  by (simp add: clamp_def)

lemma heap_evict [simp]: "heap (fst (evict c es st)) = heap st"
  by (induction es arbitrary: st) (simp_all add: Let_def)

lemma clients_evict [simp]: "clients (fst (evict c es st)) = clients st"
  by (induction es arbitrary: st) (simp_all add: Let_def)

lemma nextRef_evict [simp]: "nextRef (fst (evict c es st)) = nextRef st"
  by (induction es arbitrary: st) (simp_all add: Let_def)

lemma spawn_bounds:
  assumes "0 \<le> rx" "rx < 1" "0 \<le> ry" "ry < 1"
  shows "0 \<le> fst (randomSpawn rx ry) \<and> fst (randomSpawn rx ry) < ROOM_width
       \<and> 0 \<le> snd (randomSpawn rx ry) \<and> snd (randomSpawn rx ry) < ROOM_height"
proof -
  have a: "0 \<le> rx * 1600" "rx * 1600 < 1600" "0 \<le> ry * 900" "ry * 900 < 900"
    using assms by simp_all
  show ?thesis
    using a by (simp add: randomSpawn_def Math_floor_def ROOM_width_def ROOM_height_def floor_less_iff)
qed

lemma heap_on_connection:
  "heap (fst (on_connection st ident rx ry col t)) =
     (heap st)(nextRef st := \<lparr>p_id = ident, p_name = js ''Guest-'' @ slice0 5 ident,
               p_x = fst (randomSpawn rx ry), p_y = snd (randomSpawn rx ry),
               p_color = col, p_lastSeen = t\<rparr>)"
  by (simp add: on_connection_def Let_def)

lemma heap_on_join:
  "heap (fst (on_join st w n)) =
     (if trim n \<noteq> [] then (heap st)(ws_ref w := (heap st (ws_ref w))\<lparr>p_name := slice0 MAX_NAME_LENGTH (trim n)\<rparr>)
      else heap st)"
  by (simp add: on_join_def Let_def heap_upd_p)

lemma heap_on_rename:
  "heap (fst (on_rename st w n)) =
     (if trim n \<noteq> [] \<and> slice0 MAX_NAME_LENGTH (trim n) \<noteq> p_name (heap st (ws_ref w))
      then (heap st)(ws_ref w := (heap st (ws_ref w))\<lparr>p_name := slice0 MAX_NAME_LENGTH (trim n)\<rparr>)
      else heap st)"
  by (simp add: on_rename_def Let_def heap_upd_p)

lemma heap_on_chat [simp]: "heap (fst (on_chat st w t m)) = heap st"
  by (simp add: on_chat_def Let_def split: option.splits)

lemma heap_on_move:
  "heap (fst (on_move st w t nx ny)) =
     (case (nx, ny) of
        (Finite vx, Finite vy) \<Rightarrow>
          if MOVE_RATE_LIMIT_MS \<le> t - lastMoveAt w
             \<and> (clamp (Math_round vx) 0 ROOM_width \<noteq> p_x (heap st (ws_ref w))
                \<or> clamp (Math_round vy) 0 ROOM_height \<noteq> p_y (heap st (ws_ref w)))
          then (heap st)(ws_ref w := (heap st (ws_ref w))
                  \<lparr>p_x := clamp (Math_round vx) 0 ROOM_width,
                   p_y := clamp (Math_round vy) 0 ROOM_height\<rparr>)
          else heap st
      | _ \<Rightarrow> heap st)"
  by (simp add: on_move_def Let_def heap_upd_p split: jsnum.splits)

lemma heap_on_close [simp]: "heap (fst (on_close st r)) = heap st"
  by (simp add: on_close_def Let_def split: option.splits)

lemma heap_heartbeat [simp]: "heap (fst (heartbeat st t pt)) = heap st"
  by (simp add: heartbeat_def Let_def)

lemma heap_on_pong:
  "heap (on_pong st r t) =
     (if get_ws st r = None then heap st else (heap st)(r := (heap st r)\<lparr>p_lastSeen := t\<rparr>))"
  by (simp add: on_pong_def heap_upd_p split: option.splits)

lemma heap_touch: "heap (touch r seen st) = (heap st)(r := (heap st r)\<lparr>p_lastSeen := seen\<rparr>)"
  and participants_touch [simp]: "participants (touch r seen st) = participants st"
  and nextRef_touch [simp]: "nextRef (touch r seen st) = nextRef st"
  and clients_touch:
    "clients (touch r seen st) =
       map (\<lambda>w. if ws_ref w = r then w\<lparr>isAlive := True\<rparr> else w) (clients st)"
  by (simp_all add: touch_def heap_upd_p clients_upd_ws)

lemma heap_on_message:
  "heap (fst (on_message st r seen t d)) =
     (case get_ws st r of None \<Rightarrow> heap st
      | Some w0 \<Rightarrow>
         (case d of Malformed \<Rightarrow> heap st
          | Frame f \<Rightarrow>
             (let st1 = touch r seen st;
                  w = w0\<lparr>isAlive := True\<rparr>
              in case f of Join n \<Rightarrow> heap (fst (on_join st1 w n))
                 | Move nx ny \<Rightarrow> heap (fst (on_move st1 w t nx ny))
                 | Rename n \<Rightarrow> heap (fst (on_rename st1 w n))
                 | _ \<Rightarrow> heap st1)))"
  by (simp add: on_message_def Let_def split: option.splits inbound.splits frame.splits)

lemma in_room_upd [simp]:
  "in_room (p\<lparr>p_name := n\<rparr>) = in_room p" "in_room (p\<lparr>p_lastSeen := t\<rparr>) = in_room p"
  by (simp_all add: in_room_def)

lemma in_room_clamped [simp]:
  "in_room (p\<lparr>p_x := clamp a 0 ROOM_width, p_y := clamp b 0 ROOM_height\<rparr>)"
  by (simp add: in_room_def clamp_def ROOM_width_def ROOM_height_def)

lemma step_in_room:
  assumes "\<forall>a. in_room (heap st a)" "enabled st e"
  shows "in_room (heap (fst (step st e)) a)"
proof (cases e)
  case (Connection ident rx ry col t)
  then show ?thesis using assms spawn_bounds[of rx ry]
    by (simp add: heap_on_connection in_room_def)
next
  case (Message r seen t d)
  then show ?thesis using assms
    by (simp add: heap_on_message heap_on_join heap_on_move heap_on_rename heap_touch Let_def
             split: option.splits inbound.splits frame.splits jsnum.splits)
next
  case (PongEv r t)
  then show ?thesis using assms by (simp add: heap_on_pong)
qed (use assms in simp_all)

lemma reachable_in_room: "reachable st \<Longrightarrow> in_room (heap st a)"
proof (induction arbitrary: a rule: reachable.induct)
  case reachable_init
  show ?case by (simp add: init_def no_participant_def in_room_def ROOM_width_def ROOM_height_def)
next
  case (reachable_step st e)
  then show ?case by (simp add: step_in_room)
qed

lemma get_ws_ref: "get_ws st r = Some w \<Longrightarrow> ws_ref w = r"
  by (auto simp: get_ws_def dest: find_Some_iff[THEN iffD1])

lemma get_ws_mem: "get_ws st r = Some w \<Longrightarrow> w \<in> set (clients st)"
  by (auto simp: get_ws_def find_Some_iff)

lemma name_ok_upd [simp]:
  "name_ok (p\<lparr>p_x := a\<rparr>) = name_ok p" "name_ok (p\<lparr>p_y := b\<rparr>) = name_ok p"
  "name_ok (p\<lparr>p_lastSeen := t\<rparr>) = name_ok p"
  "name_ok (p\<lparr>p_name := slice0 MAX_NAME_LENGTH n\<rparr>)"
  by (simp_all add: name_ok_def slice0_def)

lemma step_name_ok:
  assumes "\<forall>a. name_ok (heap st a)"
  shows "name_ok (heap (fst (step st e)) a)"
proof (cases e)
  case (Connection ident rx ry col t)
  then show ?thesis using assms
    by (auto simp add: heap_on_connection name_ok_def js_def slice0_def MAX_NAME_LENGTH_def)
next
  case (Message r seen t d)
  then show ?thesis using assms
    by (simp add: heap_on_message heap_on_join heap_on_move heap_on_rename heap_touch Let_def
             split: option.splits inbound.splits frame.splits jsnum.splits)
next
  case (PongEv r t)
  then show ?thesis using assms by (simp add: heap_on_pong)
qed (use assms in simp_all)

lemma reachable_name_ok: "reachable st \<Longrightarrow> name_ok (heap st a)"
proof (induction arbitrary: a rule: reachable.induct)
  case reachable_init
  show ?case by (simp add: init_def no_participant_def name_ok_def)
next
  case (reachable_step st e)
  then show ?case by (simp add: step_name_ok)
qed

text \<open>
  C6. In every reachable state every participant of the registry has integer
  coordinates with \<open>0 \<le> x \<le> ROOM_width\<close> and \<open>0 \<le> y \<le> ROOM_height\<close>, the spawn
  position included; and after every \<open>move\<close> frame that passes the rate limit with
  finite coordinates the stored position is the rounded, clamped one, within the same
  bounds.
\<close>

theorem bounds_invariant:
  "(reachable st \<longrightarrow>
      (\<forall>p \<in> set (values_of st).
         0 \<le> p_x p \<and> p_x p \<le> ROOM_width \<and> 0 \<le> p_y p \<and> p_y p \<le> ROOM_height))
   \<and> (get_ws st r = Some w \<and> MOVE_RATE_LIMIT_MS \<le> t - lastMoveAt w \<longrightarrow>
        p_x (after_move st r seen t vx vy) = clamp (Math_round vx) 0 ROOM_width
        \<and> p_y (after_move st r seen t vx vy) = clamp (Math_round vy) 0 ROOM_height
        \<and> 0 \<le> p_x (after_move st r seen t vx vy)
        \<and> p_x (after_move st r seen t vx vy) \<le> ROOM_width
        \<and> 0 \<le> p_y (after_move st r seen t vx vy)
        \<and> p_y (after_move st r seen t vx vy) \<le> ROOM_height)"
proof (intro conjI impI ballI)
  fix p assume "reachable st" "p \<in> set (values_of st)"
  then obtain a where "p = heap st a" by (auto simp: values_of_def)
  with \<open>reachable st\<close> have "in_room p" by (simp add: reachable_in_room)
  then show "0 \<le> p_x p" "p_x p \<le> ROOM_width" "0 \<le> p_y p" "p_y p \<le> ROOM_height"
    by (simp_all add: in_room_def)
next
  assume a: "get_ws st r = Some w \<and> MOVE_RATE_LIMIT_MS \<le> t - lastMoveAt w"
  then have r: "ws_ref w = r" by (auto dest: get_ws_ref)
  show x: "p_x (after_move st r seen t vx vy) = clamp (Math_round vx) 0 ROOM_width"
    using a r by (simp add: after_move_def heap_on_message heap_on_move heap_touch Let_def)
  show y: "p_y (after_move st r seen t vx vy) = clamp (Math_round vy) 0 ROOM_height"
    using a r by (simp add: after_move_def heap_on_message heap_on_move heap_touch Let_def)
  show "0 \<le> p_x (after_move st r seen t vx vy)" "p_x (after_move st r seen t vx vy) \<le> ROOM_width"
    unfolding x by (simp_all add: clamp_def ROOM_width_def)
  show "0 \<le> p_y (after_move st r seen t vx vy)" "p_y (after_move st r seen t vx vy) \<le> ROOM_height"
    unfolding y by (simp_all add: clamp_def ROOM_height_def)
qed

lemma one_client_eq:
  "one_client = \<lparr>clients = [\<lparr>ws_ref = 0, readyState = OPEN, isAlive = True, participantId = js ''A'',
               lastMoveAt = 0, lastChatAt = 0\<rparr>],
      participants = [(js ''A'', 0)],
      heap = (\<lambda>_. no_participant)(0 := \<lparr>p_id = js ''A'', p_name = js ''Guest-A'', p_x = 800, p_y = 225,
               p_color = js ''red'', p_lastSeen = 5\<rparr>),
      nextRef = Suc 0\<rparr>"
  by (simp add: one_client_def on_connection_def init_def Let_def Map_set_def Map_has_def
        randomSpawn_def Math_floor_def ROOM_width_def ROOM_height_def js_def slice0_def)

lemma reachable_one_client: "reachable one_client"
  unfolding one_client_def by (rule reachable_step[OF reachable_init]) simp

lemma get_ws_one_client:
  "get_ws one_client 0 = Some \<lparr>ws_ref = 0, readyState = OPEN, isAlive = True, participantId = js ''A'',
               lastMoveAt = 0, lastChatAt = 0\<rparr>"
  by (simp add: one_client_eq get_ws_def)

theorem bounds_invariant_witness:
  "reachable one_client
   \<and> map p_x (values_of one_client) = [800] \<and> map p_y (values_of one_client) = [225]
   \<and> get_ws one_client 0 \<noteq> None
   \<and> p_x (after_move one_client 0 100 100 (-7 / 2) 2000) = 0
   \<and> p_y (after_move one_client 0 100 100 (-7 / 2) 2000) = 900"
  using bounds_invariant [of one_client 0
      "\<lparr>ws_ref = 0, readyState = OPEN, isAlive = True, participantId = js ''A'',
        lastMoveAt = 0, lastChatAt = 0\<rparr>" 100 100 "-7 / 2" 2000]
    reachable_one_client get_ws_one_client
  by (simp add: values_of_def one_client_eq MOVE_RATE_LIMIT_MS_def clamp_def Math_round_def
        ROOM_width_def ROOM_height_def)

lemma after_join_name:
  assumes "get_ws st r = Some w" "trim n \<noteq> []"
  shows "p_name (after_join st r seen t n) = slice0 MAX_NAME_LENGTH (trim n)"
  using assms get_ws_ref[OF assms(1)]
  by (simp add: after_join_def heap_on_message heap_on_join heap_touch Let_def)

lemma after_rename_name:
  assumes "get_ws st r = Some w" "trim n \<noteq> []"
  shows "p_name (after_rename st r seen t n) = slice0 MAX_NAME_LENGTH (trim n)"
  using assms get_ws_ref[OF assms(1)]
  by (simp add: after_rename_def heap_on_message heap_on_rename heap_touch Let_def)

text \<open>
  C9. A \<open>join\<close> or \<open>rename\<close> whose trimmed name is longer than \<open>MAX_NAME_LENGTH\<close>
  stores the first \<open>MAX_NAME_LENGTH\<close> code units of the trimmed name, a name of exactly
  that length; and in every reachable state no participant of the registry has a longer
  name.
\<close>

theorem name_clamping:
  "(get_ws st r \<noteq> None \<and> MAX_NAME_LENGTH < length (trim n) \<longrightarrow>
      p_name (after_join st r seen t n) = take MAX_NAME_LENGTH (trim n)
      \<and> length (p_name (after_join st r seen t n)) = MAX_NAME_LENGTH
      \<and> p_name (after_rename st r seen t n) = take MAX_NAME_LENGTH (trim n)
      \<and> length (p_name (after_rename st r seen t n)) = MAX_NAME_LENGTH)
   \<and> (reachable st \<longrightarrow> (\<forall>p \<in> set (values_of st). length (p_name p) \<le> MAX_NAME_LENGTH))"
proof (intro conjI impI ballI)
  fix p assume "reachable st" "p \<in> set (values_of st)"
  then obtain a where "p = heap st a" by (auto simp: values_of_def)
  with \<open>reachable st\<close> have "name_ok p" by (simp add: reachable_name_ok)
  then show "length (p_name p) \<le> MAX_NAME_LENGTH" by (simp add: name_ok_def)
next
  assume a: "get_ws st r \<noteq> None \<and> MAX_NAME_LENGTH < length (trim n)"
  then obtain w where w: "get_ws st r = Some w" by auto
  from a have ne: "trim n \<noteq> []" by auto
  show j: "p_name (after_join st r seen t n) = take MAX_NAME_LENGTH (trim n)"
    using after_join_name[OF w ne] by (simp add: slice0_def)
  show k: "p_name (after_rename st r seen t n) = take MAX_NAME_LENGTH (trim n)"
    using after_rename_name[OF w ne] by (simp add: slice0_def)
  show "length (p_name (after_join st r seen t n)) = MAX_NAME_LENGTH"
    unfolding j using a by simp
  show "length (p_name (after_rename st r seen t n)) = MAX_NAME_LENGTH"
    unfolding k using a by simp
qed

lemma isWhiteSpace_simps [simp]: "isWhiteSpace 0x20" "\<not> isWhiteSpace 0x61"
  by (simp_all add: isWhiteSpace_def)

lemma trim_long_name: "trim long_name = replicate 33 0x61"
proof -
  have r: "replicate 33 (0x61 :: code_unit) = 0x61 # replicate 32 0x61"
    by (simp add: numeral_eq_Suc)
  show ?thesis
    unfolding trim_def long_name_def js_def by (simp add: r)
qed

theorem name_clamping_witness:
  "get_ws one_client 0 \<noteq> None \<and> MAX_NAME_LENGTH < length (trim long_name)
   \<and> p_name (after_join one_client 0 100 100 long_name) = replicate 32 0x61
   \<and> p_name (after_rename one_client 0 100 100 long_name) = replicate 32 0x61
   \<and> reachable one_client \<and> map (\<lambda>p. length (p_name p)) (values_of one_client) = [7]"
  using name_clamping [of one_client 0 long_name 100 100]
    reachable_one_client get_ws_one_client
  by (simp add: trim_long_name MAX_NAME_LENGTH_def values_of_def one_client_eq js_def)

section \<open>Frames that change nothing\<close>

lemma broadcast_open_refs:
  "broadcast st m e = map (\<lambda>r. (r, m)) (filter (\<lambda>r. Some r \<noteq> e) (open_refs st))"
  by (simp add: broadcast_def open_refs_def filter_map comp_def)

lemma open_refs_map:
  assumes "\<And>c. ws_ref (g c) = ws_ref c" "\<And>c. readyState (g c) = readyState c"
  shows "map ws_ref (filter (\<lambda>c. readyState c = OPEN) (map g cs)) =
         map ws_ref (filter (\<lambda>c. readyState c = OPEN) cs)"
  by (induction cs) (simp_all add: assms)

lemma open_refs_upd_ws:
  assumes "\<And>c. ws_ref (f c) = ws_ref c" "\<And>c. readyState (f c) = readyState c"
  shows "open_refs (upd_ws r f st) = open_refs st"
  unfolding open_refs_def clients_upd_ws
  by (rule open_refs_map) (simp_all add: assms)

lemma open_refs_simps [simp]:
  "open_refs (touch r seen st) = open_refs st"
  "open_refs (upd_p r g st) = open_refs st"
  "open_refs (st\<lparr>participants := ps\<rparr>) = open_refs st"
  "open_refs (upd_ws r (\<lambda>c. c\<lparr>lastMoveAt := t\<rparr>) st) = open_refs st"
  "open_refs (upd_ws r (\<lambda>c. c\<lparr>lastChatAt := t\<rparr>) st) = open_refs st"
  by (simp_all add: touch_def open_refs_upd_ws) (simp_all add: open_refs_def)

lemma on_message_move_unchanged:
  assumes "get_ws st r = Some w" "MOVE_RATE_LIMIT_MS \<le> t - lastMoveAt w"
    "clamp (Math_round vx) 0 ROOM_width = p_x (heap st r)"
    "clamp (Math_round vy) 0 ROOM_height = p_y (heap st r)"
  shows "on_message st r seen t (Frame (Move (Finite vx) (Finite vy))) =
           (upd_ws r (\<lambda>c. c\<lparr>lastMoveAt := t\<rparr>) (touch r seen st), [])"
  using assms get_ws_ref[OF assms(1)]
  by (simp add: on_message_def on_move_def Let_def heap_touch)

lemma on_message_rename_unchanged:
  assumes "get_ws st r = Some w" "trim n \<noteq> []"
    "slice0 MAX_NAME_LENGTH (trim n) = p_name (heap st r)"
  shows "on_message st r seen t (Frame (Rename n)) = (touch r seen st, [])"
  using assms get_ws_ref[OF assms(1)]
  by (simp add: on_message_def on_rename_def Let_def heap_touch)

text \<open>
  C10. A \<open>move\<close> that passes the rate limit with finite coordinates whose rounded,
  clamped position is the stored one sends no frame (no \<open>moved\<close>, no \<open>proximity\<close>)
  and leaves the registry as it was but for \<open>lastSeen\<close>; so does a \<open>rename\<close> whose
  clamped name is the current name (no \<open>renamed\<close>).
\<close>

theorem unchanged_is_silent:
  "(get_ws st r = Some w \<and> MOVE_RATE_LIMIT_MS \<le> t - lastMoveAt w
      \<and> clamp (Math_round vx) 0 ROOM_width = p_x (heap st r)
      \<and> clamp (Math_round vy) 0 ROOM_height = p_y (heap st r) \<longrightarrow>
      snd (on_message st r seen t (Frame (Move (Finite vx) (Finite vy)))) = []
      \<and> participants (fst (on_message st r seen t (Frame (Move (Finite vx) (Finite vy)))))
          = participants st
      \<and> heap (fst (on_message st r seen t (Frame (Move (Finite vx) (Finite vy)))))
          = (heap st)(r := (heap st r)\<lparr>p_lastSeen := seen\<rparr>))
   \<and> (get_ws st r = Some w \<and> trim n \<noteq> []
      \<and> slice0 MAX_NAME_LENGTH (trim n) = p_name (heap st r) \<longrightarrow>
      snd (on_message st r seen t (Frame (Rename n))) = []
      \<and> participants (fst (on_message st r seen t (Frame (Rename n)))) = participants st
      \<and> heap (fst (on_message st r seen t (Frame (Rename n))))
          = (heap st)(r := (heap st r)\<lparr>p_lastSeen := seen\<rparr>))"
  by (simp add: on_message_move_unchanged on_message_rename_unchanged heap_touch)

theorem unchanged_is_silent_witness:
  "get_ws one_client 0 \<noteq> None
   \<and> on_message one_client 0 100 100 (Frame (Move (Finite (1599 / 2)) (Finite (899 / 4)))) =
       (upd_ws 0 (\<lambda>c. c\<lparr>lastMoveAt := 100\<rparr>) (touch 0 100 one_client), [])
   \<and> snd (on_message one_client 0 100 100 (Frame (Rename (js '' Guest-A '')))) = []"
proof -
  have a: "MOVE_RATE_LIMIT_MS \<le> 100 - lastMoveAt \<lparr>ws_ref = 0, readyState = OPEN, isAlive = True,
      participantId = js ''A'', lastMoveAt = 0, lastChatAt = 0\<rparr>"
    by (simp add: MOVE_RATE_LIMIT_MS_def)
  have b: "clamp (Math_round (1599 / 2)) 0 ROOM_width = p_x (heap one_client 0)"
    "clamp (Math_round (899 / 4)) 0 ROOM_height = p_y (heap one_client 0)"
    by (simp_all add: clamp_def Math_round_def ROOM_width_def ROOM_height_def one_client_eq
          floor_eq_iff)
  have c: "trim (js '' Guest-A '') = js ''Guest-A''"
    by (simp add: trim_def js_def isWhiteSpace_def)
  have d: "slice0 MAX_NAME_LENGTH (trim (js '' Guest-A '')) = p_name (heap one_client 0)"
    "trim (js '' Guest-A '') \<noteq> []"
    unfolding c by (simp_all add: slice0_def MAX_NAME_LENGTH_def one_client_eq js_def)
  show ?thesis
    using unchanged_is_silent [of one_client 0 _ 100 "1599 / 2" "899 / 4" 100 "js '' Guest-A ''"]
      get_ws_one_client a b d on_message_move_unchanged[OF get_ws_one_client a b]
    by simp
qed

section \<open>Names, joins and invalid frames\<close>

lemma two_clients_eq:
  "two_clients = \<lparr>clients =
        [\<lparr>ws_ref = 0, readyState = OPEN, isAlive = True, participantId = js ''A'',
          lastMoveAt = 0, lastChatAt = 0\<rparr>,
         \<lparr>ws_ref = Suc 0, readyState = OPEN, isAlive = True, participantId = js ''B'',
          lastMoveAt = 0, lastChatAt = 0\<rparr>],
      participants = [(js ''A'', 0), (js ''B'', Suc 0)],
      heap = (\<lambda>_. no_participant)
        (0 := \<lparr>p_id = js ''A'', p_name = js ''Guest-A'', p_x = 800, p_y = 225,
               p_color = js ''red'', p_lastSeen = 5\<rparr>,
         Suc 0 := \<lparr>p_id = js ''B'', p_name = js ''Guest-B'', p_x = 800, p_y = 300,
               p_color = js ''blue'', p_lastSeen = 7\<rparr>),
      nextRef = Suc (Suc 0)\<rparr>"
  by (simp add: two_clients_def one_client_eq on_connection_def Let_def Map_set_def Map_has_def
        randomSpawn_def Math_floor_def ROOM_width_def ROOM_height_def js_def slice0_def)

lemma socket_A_simps [simp]:
  "ws_ref socket_A = 0" "readyState socket_A = OPEN" "isAlive socket_A = True"
  "participantId socket_A = js ''A''" "lastMoveAt socket_A = 0" "lastChatAt socket_A = 0"
  by (simp_all add: socket_A_def)

lemma get_socket_A: "get_ws one_client 0 = Some socket_A" "get_ws two_clients 0 = Some socket_A"
  by (simp_all add: one_client_eq two_clients_eq get_ws_def socket_A_def)

lemma one_client_fields:
  "clients one_client = [socket_A]" "participants one_client = [(js ''A'', 0)]"
  by (simp_all add: one_client_eq socket_A_def)

lemma reachable_two_clients: "reachable two_clients"
  unfolding two_clients_def by (rule reachable_step[OF reachable_one_client]) simp

lemma get_ws_two_clients:
  "get_ws two_clients 0 = Some \<lparr>ws_ref = 0, readyState = OPEN, isAlive = True,
      participantId = js ''A'', lastMoveAt = 0, lastChatAt = 0\<rparr>"
  by (simp add: two_clients_eq get_ws_def)

lemma open_refs_two_clients: "open_refs two_clients = [0, Suc 0]"
  by (simp add: two_clients_eq open_refs_def)

lemma length_js [simp]: "length (js s) = length s"
  by (simp add: js_def)

lemma trim_Z: "trim (js ''Z'') = js ''Z''" "trim (js '' '') = []"
  by (simp_all add: trim_def js_def isWhiteSpace_def)

lemma on_message_rename_changed:
  assumes "get_ws st r = Some w" "trim n \<noteq> []"
    "slice0 MAX_NAME_LENGTH (trim n) \<noteq> p_name (heap st r)"
  shows "snd (on_message st r seen t (Frame (Rename n))) =
           map (\<lambda>c. (c, Renamed (participantId w) (slice0 MAX_NAME_LENGTH (trim n))))
             (open_refs st)"
  using assms get_ws_ref[OF assms(1)]
  by (simp add: on_message_def on_rename_def Let_def heap_touch broadcast_open_refs heap_upd_p)

lemma on_message_join_named:
  assumes "get_ws st r = Some w" "trim n \<noteq> []"
  shows "snd (on_message st r seen t (Frame (Join n))) =
           send w (State (snapshot (fst (on_message st r seen t (Frame (Join n))))))
           @ map (\<lambda>c. (c, Renamed (participantId w) (slice0 MAX_NAME_LENGTH (trim n))))
               (filter (\<lambda>c. c \<noteq> r) (open_refs st))"
  using assms get_ws_ref[OF assms(1)]
  by (simp add: on_message_def on_join_def Let_def heap_touch broadcast_open_refs heap_upd_p
        send_def)

lemma on_message_join_empty:
  assumes "get_ws st r = Some w" "trim n = []"
  shows "on_message st r seen t (Frame (Join n)) = (touch r seen st, [])"
  using assms by (simp add: on_message_def on_join_def Let_def)

text \<open>
  C2, as the code has it. An accepted \<open>rename\<close> (the trimmed name is non-empty and
  its first \<open>MAX_NAME_LENGTH\<close> code units differ from the current name) sends
  \<open>renamed\<close>, with the name so cut, to every open socket, the sender's included, and
  sends nothing else. A \<open>join\<close> with a non-empty trimmed name sends the \<open>state\<close>
  snapshot to the sender and \<open>renamed\<close> to every open socket except the sender's.
\<close>

theorem renamed_audience:
  "(get_ws st r = Some w \<and> trim n \<noteq> []
      \<and> slice0 MAX_NAME_LENGTH (trim n) \<noteq> p_name (heap st r) \<longrightarrow>
      snd (on_message st r seen t (Frame (Rename n))) =
        map (\<lambda>c. (c, Renamed (participantId w) (slice0 MAX_NAME_LENGTH (trim n))))
          (open_refs st))
   \<and> (get_ws st r = Some w \<and> trim n \<noteq> [] \<longrightarrow>
      snd (on_message st r seen t (Frame (Join n))) =
        send w (State (snapshot (fst (on_message st r seen t (Frame (Join n))))))
        @ map (\<lambda>c. (c, Renamed (participantId w) (slice0 MAX_NAME_LENGTH (trim n))))
            (filter (\<lambda>c. c \<noteq> r) (open_refs st)))"
  by (simp add: on_message_rename_changed on_message_join_named)

theorem renamed_audience_witness:
  "get_ws two_clients 0 \<noteq> None \<and> trim (js ''Z'') \<noteq> []
   \<and> slice0 MAX_NAME_LENGTH (trim (js ''Z'')) \<noteq> p_name (heap two_clients 0)
   \<and> snd (on_message two_clients 0 100 100 (Frame (Rename (js ''Z'')))) =
       [(0, Renamed (js ''A'') (js ''Z'')), (Suc 0, Renamed (js ''A'') (js ''Z''))]
   \<and> filter (\<lambda>d. fst d \<noteq> 0) (snd (on_message two_clients 0 100 100 (Frame (Join (js ''Z''))))) =
       [(Suc 0, Renamed (js ''A'') (js ''Z''))]"
  using renamed_audience [of two_clients 0 socket_A "js ''Z''" 100 100] get_socket_A
  by (simp add: trim_Z open_refs_two_clients slice0_def MAX_NAME_LENGTH_def send_def)
     (simp add: two_clients_eq js_def)

text \<open>
  C2 as stated fails: with A and B connected, A's \<open>rename\<close> to \<open>Z\<close> delivers
  \<open>renamed\<close> to A itself, and A's \<open>join\<close> as \<open>Z\<close> does not.
\<close>

theorem rename_reaches_sender:
  "(0, Renamed (js ''A'') (js ''Z''))
      \<in> set (snd (on_message two_clients 0 100 100 (Frame (Rename (js ''Z'')))))
   \<and> (0, Renamed (js ''A'') (js ''Z''))
      \<notin> set (snd (on_message two_clients 0 100 100 (Frame (Join (js ''Z'')))))"
proof -
  have ne: "slice0 MAX_NAME_LENGTH (trim (js ''Z'')) \<noteq> p_name (heap two_clients 0)"
    unfolding trim_Z by (simp add: slice0_def MAX_NAME_LENGTH_def two_clients_eq js_def)
  have z: "trim (js ''Z'') \<noteq> []" unfolding trim_Z by (simp add: js_def)
  show ?thesis
    using on_message_rename_changed[OF get_ws_two_clients z ne, of 100 100]
      on_message_join_named[OF get_ws_two_clients z, of 100 100]
    by (simp add: trim_Z open_refs_two_clients slice0_def MAX_NAME_LENGTH_def send_def)
qed

lemma Map_set_mem: "(k, v) \<in> set (Map_set k v m)"
  by (auto simp: Map_set_def Map_has_def)

lemma join_registers:
  assumes "get_ws st r = Some w"  "trim n \<noteq> []"
  shows "(participantId w, r) \<in> set (participants (fst (on_message st r seen t (Frame (Join n)))))"
  using assms get_ws_ref[OF assms(1)]
  by (simp add: on_message_def on_join_def Let_def Map_set_mem)

text \<open>
  C8, as the code has it. A \<open>join\<close> whose trimmed name is non-empty, from an open
  socket, sends the sender exactly one frame: the \<open>state\<close> snapshot of the registry
  after the update, which holds the sender's own entry. A \<open>join\<close> whose trimmed name
  is empty sends nothing.
\<close>

theorem join_resends_state:
  "(get_ws st r = Some w \<and> readyState w = OPEN \<and> trim n \<noteq> [] \<longrightarrow>
      filter (\<lambda>d. fst d = r) (snd (on_message st r seen t (Frame (Join n)))) =
        [(r, State (snapshot (fst (on_message st r seen t (Frame (Join n))))))]
      \<and> toClientParticipant (after_join st r seen t n)
          \<in> set (snapshot (fst (on_message st r seen t (Frame (Join n))))))
   \<and> (get_ws st r = Some w \<and> trim n = [] \<longrightarrow>
      snd (on_message st r seen t (Frame (Join n))) = [])"
proof (intro conjI impI)
  assume a: "get_ws st r = Some w \<and> readyState w = OPEN \<and> trim n \<noteq> []"
  then show "filter (\<lambda>d. fst d = r) (snd (on_message st r seen t (Frame (Join n)))) =
        [(r, State (snapshot (fst (on_message st r seen t (Frame (Join n))))))]"
    using get_ws_ref[of st r w]
    by (simp add: on_message_join_named send_def filter_map comp_def)
  have "(participantId w, r) \<in> set (participants (fst (on_message st r seen t (Frame (Join n)))))"
    using a by (simp add: join_registers)
  then show "toClientParticipant (after_join st r seen t n)
          \<in> set (snapshot (fst (on_message st r seen t (Frame (Join n)))))"
    unfolding snapshot_def values_of_def after_join_def by force
next
  assume "get_ws st r = Some w \<and> trim n = []"
  then show "snd (on_message st r seen t (Frame (Join n))) = []"
    by (simp add: on_message_join_empty)
qed

theorem join_resends_state_witness:
  "get_ws one_client 0 \<noteq> None \<and> trim (js ''Z'') \<noteq> [] \<and> trim (js '' '') = []
   \<and> map fst (snd (on_message one_client 0 100 100 (Frame (Join (js ''Z''))))) = [0]
   \<and> snd (on_message one_client 0 100 100 (Frame (Join (js '' '')))) = []"
proof -
  have z: "trim (js ''Z'') \<noteq> []" unfolding trim_Z by (simp add: js_def)
  have "filter (\<lambda>d. fst d = 0) (snd (on_message one_client 0 100 100 (Frame (Join (js ''Z''))))) =
        [(0, State (snapshot (fst (on_message one_client 0 100 100 (Frame (Join (js ''Z'')))))))]"
    using join_resends_state [of one_client 0 socket_A "js ''Z''" 100 100] get_socket_A z
    by simp
  moreover have "snd (on_message one_client 0 100 100 (Frame (Join (js ''Z'')))) =
      [(0, State (snapshot (fst (on_message one_client 0 100 100 (Frame (Join (js ''Z'')))))))]"
    using on_message_join_named[OF get_ws_one_client z, of 100 100]
    by (simp add: send_def open_refs_def one_client_eq)
  moreover have "snd (on_message one_client 0 100 100 (Frame (Join (js '' '')))) = []"
    using join_resends_state [of one_client 0 socket_A "js '' ''" 100 100] get_socket_A
    by (simp add: trim_Z)
  ultimately show ?thesis using z get_ws_one_client by (simp add: trim_Z)
qed

text \<open>
  C8 as stated fails: a \<open>join\<close> whose name is one space, from an open socket, is
  answered by no frame at all.
\<close>

theorem empty_join_sends_nothing:
  "map readyState (clients one_client) = [OPEN]
   \<and> snd (on_message one_client 0 100 100 (Frame (Join (js '' '')))) = []"
  using on_message_join_empty[OF get_socket_A(1) trim_Z(2), of 100 100]
  by (simp add: one_client_fields)

lemma on_message_move_invalid:
  assumes "get_ws st r = Some w" "\<not> (Number_isFinite nx \<and> Number_isFinite ny)"
  shows "on_message st r seen t (Frame (Move nx ny)) =
           (if t - lastMoveAt w < MOVE_RATE_LIMIT_MS then touch r seen st
            else upd_ws r (\<lambda>c. c\<lparr>lastMoveAt := t\<rparr>) (touch r seen st), [])"
  using assms get_ws_ref[OF assms(1)]
  by (cases nx; cases ny) (simp_all add: on_message_def on_move_def Let_def)

lemma sanitize_blank: "trim s = [] \<Longrightarrow> sanitizeMessage (JStr s) = []"
  by (simp add: sanitizeMessage_def slice0_def)

lemma on_message_chat_blank:
  assumes "get_ws st r = Some w" "trim s = []"
  shows "on_message st r seen t (Frame (Chat (JStr s))) =
           (if t - lastChatAt w < CHAT_RATE_LIMIT_MS then touch r seen st
            else upd_ws r (\<lambda>c. c\<lparr>lastChatAt := t\<rparr>) (touch r seen st), [])"
  using assms get_ws_ref[OF assms(1)]
  by (simp add: on_message_def on_chat_def Let_def sanitize_blank)

lemma clients_touch_gate:
  "clients (upd_ws r (\<lambda>c. c\<lparr>lastMoveAt := t\<rparr>) (touch r seen st)) =
     map (\<lambda>c. if ws_ref c = r then c\<lparr>isAlive := True, lastMoveAt := t\<rparr> else c) (clients st)"
  "clients (upd_ws r (\<lambda>c. c\<lparr>lastChatAt := t\<rparr>) (touch r seen st)) =
     map (\<lambda>c. if ws_ref c = r then c\<lparr>isAlive := True, lastChatAt := t\<rparr> else c) (clients st)"
  by (simp_all add: clients_upd_ws clients_touch)

text \<open>
  C3, as the code has it. A \<open>move\<close> frame with a non-finite coordinate and a \<open>chat\<close>
  frame whose message is empty after trimming send nothing and leave the registry
  as it was but for \<open>lastSeen\<close>; among the sockets only the sender's changes:
  \<open>isAlive\<close> is set, and its \<open>lastMoveAt\<close> (for \<open>chat\<close>, \<open>lastChatAt\<close>) becomes the
  arrival time when the frame passes the rate limit.
\<close>

theorem invalid_frame_effect:
  "(get_ws st r = Some w \<and> \<not> (Number_isFinite nx \<and> Number_isFinite ny) \<longrightarrow>
      snd (on_message st r seen t (Frame (Move nx ny))) = []
      \<and> participants (fst (on_message st r seen t (Frame (Move nx ny)))) = participants st
      \<and> heap (fst (on_message st r seen t (Frame (Move nx ny))))
          = (heap st)(r := (heap st r)\<lparr>p_lastSeen := seen\<rparr>)
      \<and> clients (fst (on_message st r seen t (Frame (Move nx ny)))) =
          map (\<lambda>c. if ws_ref c = r
                    then c\<lparr>isAlive := True,
                           lastMoveAt := (if t - lastMoveAt w < MOVE_RATE_LIMIT_MS
                                          then lastMoveAt c else t)\<rparr>
                    else c) (clients st))
   \<and> (get_ws st r = Some w \<and> trim s = [] \<longrightarrow>
      snd (on_message st r seen t (Frame (Chat (JStr s)))) = []
      \<and> participants (fst (on_message st r seen t (Frame (Chat (JStr s))))) = participants st
      \<and> heap (fst (on_message st r seen t (Frame (Chat (JStr s)))))
          = (heap st)(r := (heap st r)\<lparr>p_lastSeen := seen\<rparr>)
      \<and> clients (fst (on_message st r seen t (Frame (Chat (JStr s))))) =
          map (\<lambda>c. if ws_ref c = r
                    then c\<lparr>isAlive := True,
                           lastChatAt := (if t - lastChatAt w < CHAT_RATE_LIMIT_MS
                                          then lastChatAt c else t)\<rparr>
                    else c) (clients st))"
  by (simp add: on_message_move_invalid on_message_chat_blank heap_touch clients_touch_gate
        clients_touch)

theorem invalid_frame_effect_witness:
  "get_ws one_client 0 \<noteq> None \<and> \<not> (Number_isFinite NaN \<and> Number_isFinite (Finite 0))
   \<and> trim (js '' '') = []
   \<and> snd (on_message one_client 0 100 100 (Frame (Move NaN (Finite 0)))) = []
   \<and> participants (fst (on_message one_client 0 100 100 (Frame (Move NaN (Finite 0))))) =
       [(js ''A'', 0)]
   \<and> map lastMoveAt (clients (fst (on_message one_client 0 100 100 (Frame (Move NaN (Finite 0))))))
       = [100]
   \<and> snd (on_message one_client 0 100 100 (Frame (Chat (JStr (js '' ''))))) = []
   \<and> map lastChatAt
       (clients (fst (on_message one_client 0 100 100 (Frame (Chat (JStr (js '' '')))))))
       = [0]"
  using invalid_frame_effect [of one_client 0 socket_A NaN "Finite 0" 100 100 "js '' ''"]
    get_socket_A
  by (simp add: trim_Z MOVE_RATE_LIMIT_MS_def CHAT_RATE_LIMIT_MS_def one_client_fields)

text \<open>
  C3 as stated fails: the rate-limiter timestamp is written before the payload is
  checked, so a \<open>move\<close> with \<open>NaN\<close> sets \<open>lastMoveAt\<close> and a blank \<open>chat\<close> sets
  \<open>lastChatAt\<close>.
\<close>

theorem invalid_move_spends_the_gate:
  "map lastMoveAt (clients one_client) = [0]
   \<and> map lastMoveAt
       (clients (fst (on_message one_client 0 100 100 (Frame (Move NaN (Finite 0)))))) = [100]
   \<and> map lastChatAt (clients one_client) = [0]
   \<and> map lastChatAt
       (clients (fst (on_message one_client 0 2000 2000 (Frame (Chat (JStr (js '' '')))))))
       = [2000]"
  using on_message_move_invalid[OF get_socket_A(1), of NaN "Finite 0" 100 100]
    on_message_chat_blank[OF get_socket_A(1) trim_Z(2), of 2000 2000]
  by (simp add: MOVE_RATE_LIMIT_MS_def CHAT_RATE_LIMIT_MS_def clients_touch_gate
        one_client_fields get_socket_A)

section \<open>Well-formed states\<close>

lemma keys_Map_set:
  "map fst (Map_set k v m) = (if Map_has k m then map fst m else map fst m @ [k])"
  by (induction m) (auto simp: Map_set_def Map_has_def)

lemma distinct_Map_set: "distinct (map fst m) \<Longrightarrow> distinct (map fst (Map_set k v m))"
  by (simp add: keys_Map_set Map_has_def)

lemma set_Map_set: "set (Map_set k v m) \<subseteq> insert (k, v) (set m)"
  by (auto simp: Map_set_def)

lemma distinct_Map_delete: "distinct (map fst m) \<Longrightarrow> distinct (map fst (Map_delete k m))"
  by (simp add: Map_delete_def distinct_map_filter)

lemma get_ws_sock_ids: "get_ws st r = Some w \<Longrightarrow> (r, participantId w) \<in> set (sock_ids st)"
  using get_ws_ref[of st r w] get_ws_mem[of st r w] by (force simp: sock_ids_def)

lemma sock_ids_upd_ws:
  assumes "\<And>c. ws_ref (f c) = ws_ref c" "\<And>c. participantId (f c) = participantId c"
  shows "sock_ids (upd_ws r f st) = sock_ids st"
  by (simp add: sock_ids_def clients_upd_ws comp_def assms)

lemma sock_ids_simps [simp]:
  "sock_ids (touch r seen st) = sock_ids st"
  "sock_ids (upd_p r g st) = sock_ids st"
  "sock_ids (st\<lparr>participants := ps\<rparr>) = sock_ids st"
  "sock_ids (upd_ws r (\<lambda>c. c\<lparr>lastMoveAt := t\<rparr>) st) = sock_ids st"
  "sock_ids (upd_ws r (\<lambda>c. c\<lparr>lastChatAt := t\<rparr>) st) = sock_ids st"
  "sock_ids (upd_ws r (\<lambda>c. c\<lparr>isAlive := True\<rparr>) st) = sock_ids st"
  by (simp_all add: touch_def sock_ids_upd_ws) (simp_all add: sock_ids_def)

lemma sock_ids_on_message [simp]: "sock_ids (fst (on_message st r seen t d)) = sock_ids st"
  by (simp add: on_message_def on_join_def on_move_def on_rename_def on_chat_def Let_def
        split: option.splits inbound.splits frame.splits jsnum.splits)

lemma nextRef_on_message [simp]: "nextRef (fst (on_message st r seen t d)) = nextRef st"
  by (simp add: on_message_def on_join_def on_move_def on_rename_def on_chat_def Let_def
        split: option.splits inbound.splits frame.splits jsnum.splits)

lemma p_id_on_message [simp]:
  "p_id (heap (fst (on_message st r seen t d)) a) = p_id (heap st a)"
  by (simp add: heap_on_message heap_on_join heap_on_move heap_on_rename heap_touch Let_def
        split: option.splits inbound.splits frame.splits jsnum.splits)

lemma participants_on_message:
  "participants (fst (on_message st r seen t d)) = participants st
   \<or> (\<exists>w. get_ws st r = Some w
        \<and> participants (fst (on_message st r seen t d)) =
            Map_set (participantId w) r (participants st))"
  by (simp add: on_message_def on_join_def on_move_def on_rename_def on_chat_def Let_def
        get_ws_ref split: option.splits inbound.splits frame.splits jsnum.splits)

lemma wf_on_message:
  assumes "wf st"
  shows "wf (fst (on_message st r seen t d))"
proof -
  let ?st' = "fst (on_message st r seen t d)"
  from participants_on_message[of st r seen t d]
  show ?thesis
  proof
    assume "participants ?st' = participants st"
    with assms show ?thesis by (simp add: wf_def)
  next
    assume "\<exists>w. get_ws st r = Some w \<and> participants ?st' = Map_set (participantId w) r (participants st)"
    then obtain w where w: "get_ws st r = Some w"
      and p: "participants ?st' = Map_set (participantId w) r (participants st)" by blast
    from get_ws_sock_ids[OF w] assms
    have r: "r < nextRef st" "p_id (heap st r) = participantId w"
      by (auto simp: wf_def)
    have "\<forall>e \<in> set (participants ?st'). snd e < nextRef st \<and> p_id (heap st (snd e)) = fst e"
      using set_Map_set[of "participantId w" r "participants st"] assms r
      unfolding p wf_def by auto
    with assms show ?thesis
      unfolding wf_def by (simp add: p distinct_Map_set)
  qed
qed

lemma wf_on_connection:
  assumes "wf st"
  shows "wf (fst (on_connection st ident rx ry col t))"
proof -
  let ?st' = "fst (on_connection st ident rx ry col t)"
  have c: "sock_ids ?st' = sock_ids st @ [(nextRef st, ident)]"
    and n: "nextRef ?st' = Suc (nextRef st)"
    and p: "participants ?st' = Map_set ident (nextRef st) (participants st)"
    and h: "\<And>a. a \<noteq> nextRef st \<Longrightarrow> heap ?st' a = heap st a"
    and h': "p_id (heap ?st' (nextRef st)) = ident"
    by (simp_all add: on_connection_def Let_def sock_ids_def)
  have 1: "distinct (map fst (sock_ids ?st'))"
    using assms unfolding c wf_def by auto
  have 2: "distinct (map fst (participants ?st'))"
    using assms unfolding p wf_def by (simp add: distinct_Map_set)
  have 3: "\<forall>s \<in> set (sock_ids ?st'). fst s < nextRef ?st' \<and> p_id (heap ?st' (fst s)) = snd s"
    using assms h h' unfolding c n wf_def by (auto simp: less_Suc_eq)
  have 4: "\<forall>e \<in> set (participants ?st'). snd e < nextRef ?st' \<and> p_id (heap ?st' (snd e)) = fst e"
  proof
    fix e assume "e \<in> set (participants ?st')"
    then have "e = (ident, nextRef st) \<or> e \<in> set (participants st)"
      using set_Map_set[of ident "nextRef st" "participants st"] unfolding p by auto
    then show "snd e < nextRef ?st' \<and> p_id (heap ?st' (snd e)) = fst e"
    proof
      assume "e = (ident, nextRef st)"
      then show ?thesis using h' n by simp
    next
      assume e: "e \<in> set (participants st)"
      with assms have "snd e < nextRef st" "p_id (heap st (snd e)) = fst e"
        by (auto simp: wf_def)
      then show ?thesis using h[of "snd e"] n by simp
    qed
  qed
  from 1 2 3 4 show ?thesis unfolding wf_def by blast
qed

lemma wf_on_pong: "wf st \<Longrightarrow> wf (on_pong st r t)"
  by (auto simp: wf_def on_pong_def heap_upd_p touch_def sock_ids_upd_ws split: option.splits)

lemma wf_on_close:
  assumes "wf st"
  shows "wf (fst (on_close st r))"
proof (cases "get_ws st r")
  case None
  with assms show ?thesis by (simp add: on_close_def)
next
  case (Some w)
  let ?st' = "fst (on_close st r)"
  have c: "sock_ids ?st' = filter (\<lambda>s. fst s \<noteq> r) (sock_ids st)"
    and n: "nextRef ?st' = nextRef st" and h: "heap ?st' = heap st"
    and p: "participants ?st' = Map_delete (participantId w) (participants st)"
    using Some by (simp_all add: on_close_def Let_def sock_ids_def filter_map comp_def)
  show ?thesis
    using assms unfolding wf_def c n h p
    by (auto simp: distinct_map_filter distinct_Map_delete Map_delete_def)
qed

lemma participants_evict:
  "participants (fst (evict c es st)) =
     filter (\<lambda>x. fst x \<notin> fst ` {e \<in> set es. p_lastSeen (heap st (snd e)) < c}) (participants st)"
proof (induction es arbitrary: st)
  case Nil
  show ?case by simp
next
  case (Cons e es)
  show ?case
  proof (cases "p_lastSeen (heap st (snd e)) < c")
    case True
    then show ?thesis
      by (simp add: Let_def Cons.IH Map_delete_def) (rule filter_cong, auto)
  next
    case False
    then show ?thesis
      by (simp add: Cons.IH) (rule filter_cong, auto)
  qed
qed

lemma sock_ids_probe: "sock_ids (st\<lparr>clients := map (probe pt) (clients st)\<rparr>) = sock_ids st"
  by (simp add: sock_ids_def comp_def probe_def terminate_def Let_def)

lemma wf_heartbeat:
  assumes "wf st"
  shows "wf (fst (heartbeat st t pt))"
proof -
  let ?st1 = "st\<lparr>clients := map (probe pt) (clients st)\<rparr>"
  let ?st' = "fst (heartbeat st t pt)"
  have e: "?st' = fst (evict (t - CONNECTION_TTL_MS) (participants st) ?st1)"
    by (simp add: heartbeat_def Let_def)
  have c: "sock_ids ?st' = sock_ids st"
    unfolding e using sock_ids_probe[of pt st] by (simp add: sock_ids_def)
  have n: "nextRef ?st' = nextRef st" and h: "heap ?st' = heap st"
    unfolding e by simp_all
  have "\<exists>P. participants ?st' = filter P (participants st)"
    unfolding e participants_evict by auto
  then obtain P where p: "participants ?st' = filter P (participants st)" ..
  show ?thesis
    using assms unfolding wf_def c n h p by (auto simp: distinct_map_filter)
qed

lemma wf_step: "wf st \<Longrightarrow> wf (fst (step st e))"
  by (cases e) (simp_all add: wf_on_connection wf_on_message wf_on_pong wf_on_close wf_heartbeat)

lemma reachable_wf: "reachable st \<Longrightarrow> wf st"
proof (induction rule: reachable.induct)
  case reachable_init
  show ?case by (simp add: wf_def init_def sock_ids_def)
next
  case (reachable_step st e)
  then show ?case by (simp add: wf_step)
qed

section \<open>Chat scoping\<close>

lemma within_radius_lastSeen [simp]:
  "within_radius (p\<lparr>p_lastSeen := s\<rparr>) q = within_radius p q"
  "within_radius p (q\<lparr>p_lastSeen := s\<rparr>) = within_radius p q"
  by (simp_all add: within_radius_def)

lemma calcNearby_lastSeen [simp]: "calcNearby st (p\<lparr>p_lastSeen := s\<rparr>) = calcNearby st p"
  by (simp add: calcNearby_def)

lemma calcNearby_touch [simp]: "calcNearby (touch r seen st) p = calcNearby st p"
  unfolding calcNearby_def by (rule arg_cong[where f="map fst"]) (auto simp: heap_touch intro!: filter_cong)

lemma calcNearby_upd_ws [simp]: "calcNearby (upd_ws r f st) p = calcNearby st p"
  by (simp add: calcNearby_def)

lemma nearby_empty_iff: "getProximityParticipants st p = [] \<longleftrightarrow> calcNearby st p = []"
  by (simp add: getProximityParticipants_def calcNearby_def)

lemma nearby_ids:
  assumes "\<forall>e \<in> set (participants st). p_id (heap st (snd e)) = fst e"
  shows "map p_id (getProximityParticipants st p) = calcNearby st p"
  using assms unfolding getProximityParticipants_def calcNearby_def
  by (induction "participants st") (auto simp: comp_def)

lemma find_by_id:
  assumes "\<forall>e \<in> set m. p_id (h (snd e)) = fst e"
  shows "find (\<lambda>p. k = p_id p) (map (\<lambda>e. h (snd e)) m) =
           (case map_of m k of None \<Rightarrow> None | Some a \<Rightarrow> Some (h a))"
  using assms by (induction m) auto

lemma calcNearby_keys: "set (calcNearby st p) \<subseteq> fst ` set (participants st)"
  by (auto simp: calcNearby_def)

lemma belongs_iff:
  assumes wfr: "\<forall>e \<in> set (participants st). p_id (heap st (snd e)) = fst e"
    and s: "p_id sender \<in> fst ` set (participants st)"
  shows "belongs_to_target st (sender # getProximityParticipants st sender) c \<longleftrightarrow>
           participantId c \<in> insert (p_id sender) (set (calcNearby st sender))"
proof -
  let ?k = "participantId c"
  have ids: "set (map p_id (getProximityParticipants st sender)) = set (calcNearby st sender)"
    by (simp only: nearby_ids[OF wfr])
  show ?thesis
  proof (cases "map_of (participants st) ?k")
    case None
    have k: "?k \<notin> fst ` set (participants st)"
      using None by (simp add: map_of_eq_None_iff)
    have "?k \<noteq> p_id sender" using k s by metis
    moreover have "?k \<notin> set (calcNearby st sender)"
      using k calcNearby_keys[of st sender] by (meson subsetD)
    ultimately have "?k \<notin> insert (p_id sender) (set (calcNearby st sender))"
      by simp
    with None show ?thesis
      by (simp add: belongs_to_target_def values_of_def find_by_id[OF wfr])
  next
    case (Some a)
    then have "(?k, a) \<in> set (participants st)" by (rule map_of_SomeD)
    with wfr have a: "p_id (heap st a) = ?k" by auto
    have "?k \<in> p_id ` set (getProximityParticipants st sender) \<longleftrightarrow>
          ?k \<in> set (calcNearby st sender)"
      using ids by simp
    then have ex: "(\<exists>p \<in> set (getProximityParticipants st sender). p_id p = ?k) \<longleftrightarrow>
          ?k \<in> set (calcNearby st sender)"
      by (simp add: image_iff eq_commute)
    have f: "find (\<lambda>p. ?k = p_id p) (values_of st) = Some (heap st a)"
      using Some by (simp add: values_of_def find_by_id[OF wfr])
    have "belongs_to_target st (sender # getProximityParticipants st sender) c \<longleftrightarrow>
          list_ex (\<lambda>p. p_id p = ?k) (sender # getProximityParticipants st sender)"
      by (simp add: belongs_to_target_def f a)
    also have "\<dots> \<longleftrightarrow> p_id sender = ?k
          \<or> (\<exists>p \<in> set (getProximityParticipants st sender). p_id p = ?k)"
      by (simp add: list_ex_iff)
    also have "\<dots> \<longleftrightarrow> ?k \<in> insert (p_id sender) (set (calcNearby st sender))"
      unfolding ex by (metis insert_iff)
    finally show ?thesis .
  qed
qed

lemma sendToParticipants_audience:
  assumes wfr: "\<forall>e \<in> set (participants st). p_id (heap st (snd e)) = fst e"
    and s: "p_id sender \<in> fst ` set (participants st)"
  shows "sendToParticipants st m (sender # getProximityParticipants st sender) None =
           map (\<lambda>a. (a, m)) (chat_audience st sender)"
  unfolding sendToParticipants_def chat_audience_def
  by (simp add: belongs_iff[OF wfr s] comp_def)

lemma chat_audience_upd_ws:
  assumes "\<And>c. ws_ref (f c) = ws_ref c" "\<And>c. readyState (f c) = readyState c"
    "\<And>c. participantId (f c) = participantId c"
  shows "chat_audience (upd_ws r f st) p = chat_audience st p"
proof -
  have "map ws_ref (filter (\<lambda>c. readyState c = OPEN \<and> P (participantId c))
            (map (\<lambda>w. if ws_ref w = r then f w else w) cs)) =
        map ws_ref (filter (\<lambda>c. readyState c = OPEN \<and> P (participantId c)) cs)" for P cs
    by (induction cs) (auto simp: assms)
  then show ?thesis
    unfolding chat_audience_def clients_upd_ws calcNearby_upd_ws by simp
qed

lemma calcNearby_upd_p_lastSeen [simp]:
  "calcNearby (upd_p r (\<lambda>p. p\<lparr>p_lastSeen := seen\<rparr>) st) p = calcNearby st p"
  unfolding calcNearby_def
  by (rule arg_cong[where f="map fst"]) (auto simp: heap_upd_p intro!: filter_cong)

lemma chat_audience_lastSeen [simp]:
  "chat_audience st (p\<lparr>p_lastSeen := s\<rparr>) = chat_audience st p"
  "chat_audience (upd_p r (\<lambda>p. p\<lparr>p_lastSeen := seen\<rparr>) st) p = chat_audience st p"
  by (simp_all add: chat_audience_def)

lemma chat_audience_after_gate [simp]:
  "chat_audience (upd_ws r (\<lambda>c. c\<lparr>lastChatAt := t\<rparr>) (touch r seen st)) p = chat_audience st p"
  by (simp add: touch_def chat_audience_upd_ws)

lemma on_message_chat_valid:
  assumes "get_ws st r = Some w" "CHAT_RATE_LIMIT_MS \<le> t - lastChatAt w" "truthy m"
    "sanitizeMessage m \<noteq> []" "Map_get (participantId w) (participants st) = Some a"
  shows "snd (on_message st r seen t (Frame (Chat m))) =
     (let st1 = upd_ws r (\<lambda>c. c\<lparr>lastChatAt := t\<rparr>) (touch r seen st);
          sender = heap st1 a
      in if calcNearby st1 sender = [] then send w no_one_nearby
         else sendToParticipants st1
                (ChatMsg (p_id sender) (p_name sender) (sanitizeMessage m) t)
                (sender # getProximityParticipants st1 sender) None)"
  using assms get_ws_ref[OF assms(1)]
  by (simp add: on_message_def on_chat_def Let_def nearby_empty_iff no_one_nearby_def send_def)

lemma chat_deliveries:
  assumes wf: "wf st" and w: "get_ws st r = Some w"
    and g: "CHAT_RATE_LIMIT_MS \<le> t - lastChatAt w" and m: "truthy m" "sanitizeMessage m \<noteq> []"
    and a: "Map_get (participantId w) (participants st) = Some a"
  shows "snd (on_message st r seen t (Frame (Chat m))) =
     (if calcNearby st (heap st a) = []
      then (if readyState w = OPEN then [(r, no_one_nearby)] else [])
      else map (\<lambda>c. (c, ChatMsg (participantId w) (p_name (heap st a)) (sanitizeMessage m) t))
             (chat_audience st (heap st a)))"
proof -
  let ?st1 = "upd_ws r (\<lambda>c. c\<lparr>lastChatAt := t\<rparr>) (touch r seen st)"
  let ?s = "heap ?st1 a"
  have e: "(participantId w, a) \<in> set (participants st)"
    using a by (auto simp: Map_get_def dest: map_of_SomeD)
  with wf have ida: "p_id (heap st a) = participantId w" by (auto simp: wf_def)
  have hs: "?s = heap st a \<or> ?s = (heap st a)\<lparr>p_lastSeen := seen\<rparr>"
    by (simp add: heap_touch)
  then have ids: "p_id ?s = participantId w" and nm: "p_name ?s = p_name (heap st a)"
    and cn: "calcNearby ?st1 ?s = calcNearby st (heap st a)"
    and au: "chat_audience ?st1 ?s = chat_audience st (heap st a)"
    using ida by auto
  have wfr: "\<forall>e \<in> set (participants ?st1). p_id (heap ?st1 (snd e)) = fst e"
    using wf by (auto simp: wf_def heap_touch)
  have k: "p_id ?s \<in> fst ` set (participants ?st1)"
    unfolding ids using e by (force simp: image_iff)
  have r: "ws_ref w = r" using w by (rule get_ws_ref)
  show ?thesis
    unfolding on_message_chat_valid[OF w g m a] Let_def cn
      sendToParticipants_audience[OF wfr k] au ids nm
    using r by (simp add: send_def)
qed

lemma socket_B_simps [simp]:
  "ws_ref socket_B = Suc 0" "readyState socket_B = OPEN" "isAlive socket_B = True"
  "participantId socket_B = js ''B''" "lastMoveAt socket_B = 0" "lastChatAt socket_B = 0"
  by (simp_all add: socket_B_def)

lemma socket_C_simps [simp]:
  "ws_ref socket_C = 2" "readyState socket_C = OPEN" "isAlive socket_C = True"
  "participantId socket_C = js ''C''" "lastMoveAt socket_C = 0" "lastChatAt socket_C = 0"
  by (simp_all add: socket_C_def)

lemma js_neq [simp]:
  "js ''A'' \<noteq> js ''B''" "js ''A'' \<noteq> js ''C''" "js ''B'' \<noteq> js ''C''"
  "js ''B'' \<noteq> js ''A''" "js ''C'' \<noteq> js ''A''" "js ''C'' \<noteq> js ''B''"
  by (simp_all add: js_def)

lemma three_clients_fields:
  "clients three_clients = [socket_A, socket_B, socket_C]"
  "participants three_clients = [(js ''A'', 0), (js ''B'', Suc 0), (js ''C'', 2)]"
  "heap three_clients 0 = \<lparr>p_id = js ''A'', p_name = js ''Guest-A'', p_x = 800, p_y = 225,
               p_color = js ''red'', p_lastSeen = 5\<rparr>"
  "heap three_clients (Suc 0) = \<lparr>p_id = js ''B'', p_name = js ''Guest-B'', p_x = 800, p_y = 300,
               p_color = js ''blue'', p_lastSeen = 7\<rparr>"
  "heap three_clients 2 = \<lparr>p_id = js ''C'', p_name = js ''Guest-C'', p_x = 200, p_y = 300,
               p_color = js ''green'', p_lastSeen = 9\<rparr>"
  by (simp_all add: three_clients_def two_clients_eq on_connection_def Let_def Map_set_def
        Map_has_def randomSpawn_def Math_floor_def ROOM_width_def ROOM_height_def js_def
        slice0_def socket_A_def socket_B_def socket_C_def numeral_2_eq_2)

lemma reachable_three_clients: "reachable three_clients"
  unfolding three_clients_def by (rule reachable_step[OF reachable_two_clients]) simp

lemma get_three_clients:
  "get_ws three_clients 0 = Some socket_A" "get_ws three_clients 2 = Some socket_C"
  by (simp_all add: get_ws_def three_clients_fields)

lemma nearby_three_clients:
  "calcNearby three_clients (heap three_clients 0) = [js ''B'']"
  "calcNearby three_clients (heap three_clients 2) = []"
  by (simp_all add: calcNearby_def three_clients_fields within_radius_def PROXIMITY_RADIUS_def)

lemma audience_three_clients:
  "chat_audience three_clients (heap three_clients 0) = [0, Suc 0]"
  by (simp add: chat_audience_def nearby_three_clients)
     (simp add: three_clients_fields)

lemma sanitize_hi: "sanitizeMessage (JStr (js '' hi  <b> ''))  = js ''hi b''"
  by (simp add: sanitizeMessage_def trim_def js_def isWhiteSpace_def slice0_def
        MAX_MESSAGE_LENGTH_def)

section \<open>Rate limiting\<close>

lemma find_map_same_ref:
  assumes "\<And>c. ws_ref (f c) = ws_ref c"
  shows "find (\<lambda>w. ws_ref w = r) (map (\<lambda>w. if ws_ref w = r' then f w else w) cs) =
           (if r = r' then map_option f (find (\<lambda>w. ws_ref w = r) cs)
            else find (\<lambda>w. ws_ref w = r) cs)"
  by (induction cs) (auto simp: assms)

lemma get_ws_upd_ws:
  assumes "\<And>c. ws_ref (f c) = ws_ref c"
  shows "get_ws (upd_ws r' f st) r = (if r = r' then map_option f (get_ws st r) else get_ws st r)"
  unfolding get_ws_def clients_upd_ws by (rule find_map_same_ref) (rule assms)

lemma get_ws_other [simp]:
  "get_ws (upd_p r' g st) r = get_ws st r"
  "get_ws (st\<lparr>participants := ps\<rparr>) r = get_ws st r"
  by (simp_all add: get_ws_def)

lemma get_ws_touch:
  "get_ws (touch r' seen st) r =
     (if r = r' then map_option (\<lambda>c. c\<lparr>isAlive := True\<rparr>) (get_ws st r) else get_ws st r)"
  by (simp add: touch_def get_ws_upd_ws)

lemma gates_upd_ws:
  assumes "\<And>c. ws_ref (f c) = ws_ref c"
  shows "move_gate (upd_ws r' f st) r =
           (if r = r' then map_option (\<lambda>c. lastMoveAt (f c)) (get_ws st r) else move_gate st r)"
    and "chat_gate (upd_ws r' f st) r =
           (if r = r' then map_option (\<lambda>c. lastChatAt (f c)) (get_ws st r) else chat_gate st r)"
  by (simp_all add: move_gate_def chat_gate_def get_ws_upd_ws assms option.map_comp comp_def)

lemma gates_simps [simp]:
  "move_gate (touch r' seen st) r = move_gate st r"
  "chat_gate (touch r' seen st) r = chat_gate st r"
  "move_gate (upd_p r' g st) r = move_gate st r"
  "chat_gate (upd_p r' g st) r = chat_gate st r"
  "move_gate (st\<lparr>participants := ps\<rparr>) r = move_gate st r"
  "chat_gate (st\<lparr>participants := ps\<rparr>) r = chat_gate st r"
  "move_gate (upd_ws r' (\<lambda>c. c\<lparr>lastChatAt := t\<rparr>) st) r = move_gate st r"
  "chat_gate (upd_ws r' (\<lambda>c. c\<lparr>lastMoveAt := t\<rparr>) st) r = chat_gate st r"
  by (simp_all add: touch_def gates_upd_ws) (simp_all add: move_gate_def chat_gate_def)

lemma gates_other_socket [simp]:
  "r' \<noteq> r \<Longrightarrow> move_gate (upd_ws r' (\<lambda>c. c\<lparr>lastMoveAt := t\<rparr>) st) r = move_gate st r"
  "r' \<noteq> r \<Longrightarrow> chat_gate (upd_ws r' (\<lambda>c. c\<lparr>lastChatAt := t\<rparr>) st) r = chat_gate st r"
  by (simp_all add: gates_upd_ws)

lemma move_gate_on_message:
  assumes "spares_move_gate r (Message r' seen t d)"
  shows "move_gate (fst (on_message st r' seen t d)) r = move_gate st r"
  using assms
  by (cases d rule: inbound.exhaust; (simp add: on_message_def split: option.splits)?;
      rename_tac f; case_tac f)
     (auto simp: on_message_def on_join_def on_move_def on_rename_def on_chat_def Let_def
        get_ws_ref split: option.splits jsnum.splits)

lemma chat_gate_on_message:
  assumes "spares_chat_gate r (Message r' seen t d)"
  shows "chat_gate (fst (on_message st r' seen t d)) r = chat_gate st r"
  using assms
  by (cases d rule: inbound.exhaust; (simp add: on_message_def split: option.splits)?;
      rename_tac f; case_tac f)
     (auto simp: on_message_def on_join_def on_move_def on_rename_def on_chat_def Let_def
        get_ws_ref split: option.splits jsnum.splits)

lemma find_append_found:
  "find P xs \<noteq> None \<Longrightarrow> find P (xs @ ys) = find P xs"
  by (induction xs) auto

lemma find_filter_keep:
  "(\<And>x. P x \<Longrightarrow> Q x) \<Longrightarrow> find P (filter Q xs) = find P xs"
  by (induction xs) auto

lemma get_ws_on_connection:
  "get_ws st r \<noteq> None \<Longrightarrow> get_ws (fst (on_connection st ident rx ry col t)) r = get_ws st r"
  by (simp add: get_ws_def on_connection_def Let_def find_append_found)

lemma get_ws_on_close:
  "r' \<noteq> r \<Longrightarrow> get_ws (fst (on_close st r')) r = get_ws st r"
  by (auto simp: get_ws_def on_close_def Let_def intro!: find_filter_keep split: option.splits)

lemma find_map_probe:
  "find (\<lambda>w. ws_ref w = r) (map (probe pt) cs) = map_option (probe pt) (find (\<lambda>w. ws_ref w = r) cs)"
  by (induction cs) (auto simp: probe_def terminate_def Let_def)

lemma get_ws_heartbeat:
  "get_ws (fst (heartbeat st t pt)) r = map_option (probe pt) (get_ws st r)"
  by (simp add: get_ws_def heartbeat_def Let_def find_map_probe)

lemma probe_gates [simp]:
  "lastMoveAt (probe pt w) = lastMoveAt w" "lastChatAt (probe pt w) = lastChatAt w"
  by (simp_all add: probe_def terminate_def Let_def)

lemma gates_on_pong [simp]:
  "move_gate (on_pong st r' t) r = move_gate st r" "chat_gate (on_pong st r' t) r = chat_gate st r"
  by (simp_all add: on_pong_def gates_upd_ws split: option.splits)
     (simp_all add: move_gate_def chat_gate_def)

lemma move_gate_step:
  assumes "spares_move_gate r e" "get_ws st r \<noteq> None"
  shows "move_gate (fst (step st e)) r = move_gate st r"
proof (cases e)
  case (Message r' seen t d)
  with assms(1) show ?thesis by (simp add: move_gate_on_message)
next
  case (Connection ident rx ry col t)
  with assms(2) show ?thesis by (simp add: move_gate_def get_ws_on_connection)
next
  case (Close r')
  with assms(1) show ?thesis by (simp add: move_gate_def get_ws_on_close)
next
  case (Heartbeat t pt)
  then show ?thesis by (simp add: move_gate_def get_ws_heartbeat option.map_comp comp_def)
qed simp_all

lemma chat_gate_step:
  assumes "spares_chat_gate r e" "get_ws st r \<noteq> None"
  shows "chat_gate (fst (step st e)) r = chat_gate st r"
proof (cases e)
  case (Message r' seen t d)
  with assms(1) show ?thesis by (simp add: chat_gate_on_message)
next
  case (Connection ident rx ry col t)
  with assms(2) show ?thesis by (simp add: chat_gate_def get_ws_on_connection)
next
  case (Close r')
  with assms(1) show ?thesis by (simp add: chat_gate_def get_ws_on_close)
next
  case (Heartbeat t pt)
  then show ?thesis by (simp add: chat_gate_def get_ws_heartbeat option.map_comp comp_def)
qed simp_all

lemma move_gate_run:
  "list_all (spares_move_gate r) es \<Longrightarrow> get_ws st r \<noteq> None \<Longrightarrow>
     move_gate (fst (run st es)) r = move_gate st r"
proof (induction es arbitrary: st)
  case Nil
  show ?case by simp
next
  case (Cons e es)
  then have s: "move_gate (fst (step st e)) r = move_gate st r"
    by (simp add: move_gate_step)
  with Cons.prems have "get_ws (fst (step st e)) r \<noteq> None"
    by (auto simp: move_gate_def)
  with Cons s show ?case by (simp add: Let_def)
qed

lemma chat_gate_run:
  "list_all (spares_chat_gate r) es \<Longrightarrow> get_ws st r \<noteq> None \<Longrightarrow>
     chat_gate (fst (run st es)) r = chat_gate st r"
proof (induction es arbitrary: st)
  case Nil
  show ?case by simp
next
  case (Cons e es)
  then have s: "chat_gate (fst (step st e)) r = chat_gate st r"
    by (simp add: chat_gate_step)
  with Cons.prems have "get_ws (fst (step st e)) r \<noteq> None"
    by (auto simp: chat_gate_def)
  with Cons s show ?case by (simp add: Let_def)
qed

lemma move_gate_after_move:
  assumes "get_ws st r = Some w" "MOVE_RATE_LIMIT_MS \<le> t - lastMoveAt w"
  shows "move_gate (fst (on_message st r seen t (Frame (Move nx ny)))) r = Some t"
  using assms get_ws_ref[OF assms(1)]
  by (cases nx; cases ny)
     (simp_all add: on_message_def on_move_def Let_def move_gate_def get_ws_upd_ws get_ws_touch)

lemma chat_gate_after_chat:
  assumes "get_ws st r = Some w" "CHAT_RATE_LIMIT_MS \<le> t - lastChatAt w"
  shows "chat_gate (fst (on_message st r seen t (Frame (Chat m)))) r = Some t"
  using assms get_ws_ref[OF assms(1)]
  by (simp add: on_message_def on_chat_def Let_def chat_gate_def get_ws_upd_ws get_ws_touch
        split: option.splits)

lemma move_dropped:
  assumes "move_gate st r = Some t1" "t2 - t1 < MOVE_RATE_LIMIT_MS"
  shows "on_message st r seen t2 (Frame (Move nx ny)) = (touch r seen st, [])"
  using assms by (auto simp: move_gate_def on_message_def on_move_def Let_def)

lemma chat_dropped:
  assumes "chat_gate st r = Some t1" "t2 - t1 < CHAT_RATE_LIMIT_MS"
  shows "on_message st r seen t2 (Frame (Chat m)) = (touch r seen st, [])"
  using assms by (auto simp: chat_gate_def on_message_def on_chat_def Let_def)

section \<open>Removal\<close>

lemma two_clients_fields:
  "clients two_clients = [socket_A, socket_B]"
  "participants two_clients = [(js ''A'', 0), (js ''B'', Suc 0)]"
  "heap two_clients 0 = \<lparr>p_id = js ''A'', p_name = js ''Guest-A'', p_x = 800, p_y = 225,
               p_color = js ''red'', p_lastSeen = 5\<rparr>"
  "heap two_clients (Suc 0) = \<lparr>p_id = js ''B'', p_name = js ''Guest-B'', p_x = 800, p_y = 300,
               p_color = js ''blue'', p_lastSeen = 7\<rparr>"
  by (simp_all add: two_clients_eq socket_A_def socket_B_def)

lemma sweep_run:
  "run two_clients [PongEv (Suc 0) 35000, Heartbeat 40000 ping_never_throws] =
     (after_sweep, [(0, Left (js ''A'')), (Suc 0, Left (js ''A''))])"
  "clients after_sweep = [socket_A\<lparr>isAlive := False\<rparr>, socket_B\<lparr>isAlive := False\<rparr>]"
  "participants after_sweep = [(js ''B'', Suc 0)]"
  "heap after_sweep 0 = heap two_clients 0"
  "heap after_sweep (Suc 0) = (heap two_clients (Suc 0))\<lparr>p_lastSeen := 35000\<rparr>"
  by (simp_all add: after_sweep_def Let_def on_pong_def get_ws_def two_clients_fields
        heartbeat_def probe_def ping_never_throws_def CONNECTION_TTL_MS_def heap_upd_p
        clients_upd_ws Map_delete_def broadcast_def prod_eq_iff)

lemma js_eq_Nil [simp]: "js s = [] \<longleftrightarrow> s = []"
  by (simp add: js_def)

lemma run_append:
  "run st (xs @ ys) = (let a = run st xs; b = run (fst a) ys in (fst b, snd a @ snd b))"
  by (induction xs arbitrary: st) (simp_all add: Let_def)

lemma get_after_sweep: "get_ws after_sweep 0 = Some (socket_A\<lparr>isAlive := False\<rparr>)"
  by (simp add: get_ws_def sweep_run)

lemma sweep_then_close:
  "snd (run two_clients ([PongEv (Suc 0) 35000, Heartbeat 40000 ping_never_throws] @ [Close 0])) =
     [(0, Left (js ''A'')), (Suc 0, Left (js ''A'')), (Suc 0, Left (js ''A''))]"
  unfolding run_append sweep_run
  by (simp add: Let_def on_close_def get_after_sweep broadcast_def sweep_run)

lemma sweep_then_join:
  "snd (run two_clients ([PongEv (Suc 0) 35000, Heartbeat 40000 ping_never_throws]
          @ [Message 0 40001 40001 (Frame (Join (js ''Z'')))])) =
     [(0, Left (js ''A'')), (Suc 0, Left (js ''A'')),
      (0, State [\<lparr>c_id = js ''B'', c_name = js ''Guest-B'', c_x = 800, c_y = 300,
                   c_color = js ''blue''\<rparr>,
                 \<lparr>c_id = js ''A'', c_name = js ''Z'', c_x = 800, c_y = 225,
                   c_color = js ''red''\<rparr>]),
      (Suc 0, Renamed (js ''A'') (js ''Z''))]"
  unfolding run_append sweep_run
  by (simp add: Let_def on_message_def get_after_sweep on_join_def trim_Z send_def broadcast_def
        sweep_run snapshot_def values_of_def toClientParticipant_def heap_upd_p heap_touch
        clients_touch Map_set_def Map_has_def slice0_def MAX_NAME_LENGTH_def two_clients_fields)

text \<open>
  C1 as stated fails. With A and B connected, the heartbeat evicts the stale A and
  broadcasts \<open>left\<close> for it; A's socket is still open, and when it closes B is sent
  \<open>left\<close> for A a second time. If instead A sends a \<open>join\<close> after the eviction, A is
  back in the registry and in the \<open>state\<close> snapshot sent then.
\<close>

theorem left_twice_and_back:
  "count_list
     (snd (run two_clients [PongEv (Suc 0) 35000, Heartbeat 40000 ping_never_throws, Close 0]))
     (Suc 0, Left (js ''A'')) = 2
   \<and> snd (run two_clients [PongEv (Suc 0) 35000, Heartbeat 40000 ping_never_throws,
                           Message 0 40001 40001 (Frame (Join (js ''Z'')))]) =
     [(0, Left (js ''A'')), (Suc 0, Left (js ''A'')),
      (0, State [\<lparr>c_id = js ''B'', c_name = js ''Guest-B'', c_x = 800, c_y = 300,
                   c_color = js ''blue''\<rparr>,
                 \<lparr>c_id = js ''A'', c_name = js ''Z'', c_x = 800, c_y = 225,
                   c_color = js ''red''\<rparr>]),
      (Suc 0, Renamed (js ''A'') (js ''Z''))]"
  using sweep_then_close sweep_then_join by simp

lemma open_refs_evict [simp]: "open_refs (fst (evict c es st)) = open_refs st"
  by (simp add: open_refs_def)

lemma deliveries_evict:
  "snd (evict c es st) =
     concat (map (\<lambda>e. map (\<lambda>a. (a, Left (fst e))) (open_refs st)) (filter (stale st c) es))"
proof (induction es arbitrary: st)
  case Nil
  show ?case by simp
next
  case (Cons e es)
  let ?st1 = "st\<lparr>participants := Map_delete (fst e) (participants st)\<rparr>"
  have s: "stale ?st1 c = stale st c" by (simp add: stale_def fun_eq_iff)
  show ?case
    by (simp add: Let_def Cons.IH s broadcast_open_refs) (simp add: stale_def)
qed

lemma distinct_left_frames:
  assumes "distinct (map fst es)" "distinct rs"
  shows "distinct (concat (map (\<lambda>e. map (\<lambda>a. (a, Left (fst e))) rs) es))"
  using assms
proof (induction es)
  case Nil
  show ?case by simp
next
  case (Cons e es)
  have "distinct (map (\<lambda>a. (a, Left (fst e))) rs)"
    using Cons.prems(2) by (simp add: distinct_map inj_on_def)
  moreover have "set (map (\<lambda>a. (a, Left (fst e))) rs)
      \<inter> set (concat (map (\<lambda>e. map (\<lambda>a. (a, Left (fst e))) rs) es)) = {}"
    using Cons.prems(1) by (auto simp: image_iff)
  ultimately show ?case using Cons by simp
qed

lemma kept_by_key:
  assumes "distinct (map fst m)"
  shows "filter (\<lambda>x. fst x \<notin> fst ` {e \<in> set m. P e}) m = filter (\<lambda>e. \<not> P e) m"
proof (rule filter_cong[OF refl])
  fix x assume x: "x \<in> set m"
  show "(fst x \<notin> fst ` {e \<in> set m. P e}) = (\<not> P x)"
  proof
    assume "fst x \<notin> fst ` {e \<in> set m. P e}"
    with x show "\<not> P x" by force
  next
    assume n: "\<not> P x"
    show "fst x \<notin> fst ` {e \<in> set m. P e}"
    proof
      assume "fst x \<in> fst ` {e \<in> set m. P e}"
      then obtain e where e: "e \<in> set m" "P e" "fst e = fst x" by force
      with assms x have "e = x" by (metis eq_key_imp_eq_value prod.collapse)
      with e n show False by simp
    qed
  qed
qed

lemma wf_distinct_open_refs: "wf st \<Longrightarrow> distinct (open_refs st)"
proof -
  assume "wf st"
  then have "distinct (map ws_ref (clients st))"
    by (simp add: wf_def sock_ids_def comp_def)
  then show ?thesis
    unfolding open_refs_def by (rule distinct_map_filter)
qed

lemma snapshot_ids:
  assumes "wf st"
  shows "map c_id (snapshot st) = map fst (participants st)"
  using assms by (simp add: snapshot_def values_of_def toClientParticipant_def wf_def comp_def)

lemma on_close_found:
  assumes "get_ws st r = Some w"
  shows "on_close st r =
     (st\<lparr>clients := filter (\<lambda>c. ws_ref c \<noteq> r) (clients st),
         participants := Map_delete (participantId w) (participants st)\<rparr>,
      map (\<lambda>c. (c, Left (participantId w)))
        (open_refs (st\<lparr>clients := filter (\<lambda>c. ws_ref c \<noteq> r) (clients st)\<rparr>)))"
  using assms by (simp add: on_close_def Let_def broadcast_open_refs open_refs_def)

lemma close_effect:
  assumes wf: "wf st" and w: "get_ws st r = Some w"
  shows "snd (on_close st r) =
           map (\<lambda>c. (c, Left (participantId w))) (open_refs (fst (on_close st r)))"
    and "distinct (snd (on_close st r))"
    and "get_ws (fst (on_close st r)) r = None"
    and "participantId w \<notin> set (map c_id (snapshot (fst (on_close st r))))"
proof -
  have wf': "wf (fst (on_close st r))" using wf by (rule wf_on_close)
  show 1: "snd (on_close st r) =
           map (\<lambda>c. (c, Left (participantId w))) (open_refs (fst (on_close st r)))"
    by (simp add: on_close_found[OF w] open_refs_def)
  show "distinct (snd (on_close st r))"
    unfolding 1 using wf_distinct_open_refs[OF wf'] by (simp add: distinct_map inj_on_def)
  show "get_ws (fst (on_close st r)) r = None"
    by (simp add: on_close_found[OF w] get_ws_def find_None_iff)
  show "participantId w \<notin> set (map c_id (snapshot (fst (on_close st r))))"
    unfolding snapshot_ids[OF wf'] by (auto simp: on_close_found[OF w] Map_delete_def)
qed

lemma sweep_effect:
  assumes wf: "wf st"
  shows "participants (fst (heartbeat st t pt)) =
           filter (\<lambda>e. \<not> stale st (t - CONNECTION_TTL_MS) e) (participants st)"
    and "snd (heartbeat st t pt) =
           concat (map (\<lambda>e. map (\<lambda>c. (c, Left (fst e))) (open_refs (fst (heartbeat st t pt))))
                     (filter (stale st (t - CONNECTION_TTL_MS)) (participants st)))"
    and "distinct (snd (heartbeat st t pt))"
    and "\<forall>e \<in> set (participants st). stale st (t - CONNECTION_TTL_MS) e \<longrightarrow>
           fst e \<notin> set (map c_id (snapshot (fst (heartbeat st t pt))))"
proof -
  let ?c = "t - CONNECTION_TTL_MS"
  let ?st1 = "st\<lparr>clients := map (probe pt) (clients st)\<rparr>"
  have hb: "heartbeat st t pt = evict ?c (participants st) ?st1"
    by (simp add: heartbeat_def Let_def)
  have st: "stale ?st1 ?c = stale st ?c" by (simp add: stale_def fun_eq_iff)
  have d: "distinct (map fst (participants st))" using wf by (simp add: wf_def)
  have wf': "wf (fst (heartbeat st t pt))" using wf by (rule wf_heartbeat)
  show 1: "participants (fst (heartbeat st t pt)) =
           filter (\<lambda>e. \<not> stale st ?c e) (participants st)"
    unfolding hb participants_evict
    using kept_by_key[OF d, of "stale st ?c"] by (simp add: stale_def)
  show 2: "snd (heartbeat st t pt) =
           concat (map (\<lambda>e. map (\<lambda>c. (c, Left (fst e))) (open_refs (fst (heartbeat st t pt))))
                     (filter (stale st ?c) (participants st)))"
    unfolding hb deliveries_evict st by simp
  show "distinct (snd (heartbeat st t pt))"
    unfolding 2
    by (rule distinct_left_frames)
       (simp_all add: d distinct_map_filter wf_distinct_open_refs[OF wf'])
  show "\<forall>e \<in> set (participants st). stale st ?c e \<longrightarrow>
           fst e \<notin> set (map c_id (snapshot (fst (heartbeat st t pt))))"
  proof (intro ballI impI)
    fix e assume e: "e \<in> set (participants st)" "stale st ?c e"
    show "fst e \<notin> set (map c_id (snapshot (fst (heartbeat st t pt))))"
    proof
      assume "fst e \<in> set (map c_id (snapshot (fst (heartbeat st t pt))))"
      then obtain x where x: "x \<in> set (participants st)" "\<not> stale st ?c x" "fst x = fst e"
        unfolding snapshot_ids[OF wf'] 1 by force
      with d e have "x = e" by (metis eq_key_imp_eq_value prod.collapse)
      with x e show False by simp
    qed
  qed
qed

lemma stale_two_clients:
  "filter (stale two_clients (30006 - CONNECTION_TTL_MS)) (participants two_clients) = [(js ''A'', 0)]"
  "filter (\<lambda>e. \<not> stale two_clients (30006 - CONNECTION_TTL_MS) e) (participants two_clients) =
     [(js ''B'', Suc 0)]"
  by (simp_all add: stale_def two_clients_fields CONNECTION_TTL_MS_def)

lemma open_refs_after_close: "open_refs (fst (on_close two_clients 0)) = [Suc 0]"
  by (simp add: on_close_found[OF get_socket_A(2)] open_refs_def two_clients_fields)

lemma open_refs_after_heartbeat:
  "open_refs (fst (heartbeat two_clients 30006 ping_never_throws)) = [0, Suc 0]"
  by (simp add: heartbeat_def Let_def open_refs_def two_clients_fields probe_def
        ping_never_throws_def)

section \<open>The audience of a chat\<close>

lemma on_message_chat_evicted:
  assumes "get_ws st r = Some w" "Map_get (participantId w) (participants st) = None"
  shows "snd (on_message st r seen t (Frame (Chat m))) = []"
  using assms by (simp add: on_message_def on_chat_def Let_def)

lemma reachable_after_sweep: "reachable after_sweep"
proof -
  let ?s1 = "fst (step two_clients (PongEv (Suc 0) 35000))"
  have 1: "reachable ?s1"
    by (rule reachable_step[OF reachable_two_clients]) (simp add: get_ws_def two_clients_fields)
  have "reachable (fst (step ?s1 (Heartbeat 40000 ping_never_throws)))"
    by (rule reachable_step[OF 1]) simp
  then show ?thesis by (simp add: after_sweep_def Let_def)
qed

text \<open>
  C5 as stated fails. After the sweep that evicted A while its socket stayed open, B
  is a participant within the radius of A's position and both sockets are open; A's
  \<open>chat\<close> passes the rate limit and the sanitising, and no frame is sent: neither
  \<open>chat\<close> nor \<open>chat_error\<close>.
\<close>

theorem evicted_sender_is_silent:
  "reachable after_sweep
   \<and> map readyState (clients after_sweep) = [OPEN, OPEN]
   \<and> map lastChatAt (clients after_sweep) = [0, 0]
   \<and> participants after_sweep = [(js ''B'', Suc 0)]
   \<and> within_radius (heap after_sweep 0) (heap after_sweep (Suc 0))
   \<and> truthy (JStr (js '' hi  <b> ''))
   \<and> sanitizeMessage (JStr (js '' hi  <b> '')) = js ''hi b''
   \<and> snd (on_message after_sweep 0 50000 50000 (Frame (Chat (JStr (js '' hi  <b> ''))))) = []"
proof -
  have n: "Map_get (participantId (socket_A\<lparr>isAlive := False\<rparr>)) (participants after_sweep) = None"
    by (simp add: Map_get_def sweep_run)
  have "within_radius (heap after_sweep 0) (heap after_sweep (Suc 0))"
    by (simp add: sweep_run two_clients_fields within_radius_def PROXIMITY_RADIUS_def)
  moreover have "truthy (JStr (js '' hi  <b> ''))" by (simp add: js_def)
  ultimately show ?thesis
    using on_message_chat_evicted[OF get_after_sweep n, of 50000 50000 "JStr (js '' hi  <b> '')"]
      reachable_after_sweep
    by (simp add: sweep_run sanitize_hi)
qed

text \<open>
  C5, as the code has it. In a reachable state, a \<open>chat\<close> frame that passes the rate
  limit and the sanitising, on a connection whose participant A is still in the
  registry: if no other participant is within the radius of A, the only frame sent is
  \<open>chat_error\<close>, to A's socket if it is open; otherwise the frames sent are the \<open>chat\<close>
  frame, once to each socket of the audience and nothing else (so no \<open>chat_error\<close>);
  A's socket is in the audience if it is open, every socket of the audience is an
  open socket of A or of a registry participant other than A within the radius, and
  every such open socket is in the audience. A \<open>chat\<close> frame on a connection whose
  participant is not in the registry sends nothing.
\<close>

theorem chat_scoping:
  "(reachable st \<and> get_ws st r = Some w
    \<and> CHAT_RATE_LIMIT_MS \<le> t - lastChatAt w \<and> truthy m \<and> sanitizeMessage m \<noteq> []
    \<and> Map_get (participantId w) (participants st) = Some a \<longrightarrow>
     (calcNearby st (heap st a) = [] \<longrightarrow>
        snd (on_message st r seen t (Frame (Chat m))) =
          (if readyState w = OPEN then [(r, no_one_nearby)] else []))
     \<and> (calcNearby st (heap st a) \<noteq> [] \<longrightarrow>
        snd (on_message st r seen t (Frame (Chat m))) =
          map (\<lambda>c. (c, ChatMsg (participantId w) (p_name (heap st a)) (sanitizeMessage m) t))
            (chat_audience st (heap st a)))
     \<and> (readyState w = OPEN \<longrightarrow> r \<in> set (chat_audience st (heap st a)))
     \<and> (\<forall>c \<in> set (chat_audience st (heap st a)).
          \<exists>s \<in> set (clients st). ws_ref s = c \<and> readyState s = OPEN
            \<and> (participantId s = participantId w
               \<or> (\<exists>b. (participantId s, b) \<in> set (participants st)
                    \<and> participantId s \<noteq> participantId w
                    \<and> within_radius (heap st a) (heap st b))))
     \<and> (\<forall>s \<in> set (clients st).
          readyState s = OPEN
          \<and> (\<exists>b. (participantId s, b) \<in> set (participants st)
                \<and> participantId s \<noteq> participantId w
                \<and> within_radius (heap st a) (heap st b))
          \<longrightarrow> ws_ref s \<in> set (chat_audience st (heap st a))))
   \<and> (get_ws st r = Some w \<and> Map_get (participantId w) (participants st) = None \<longrightarrow>
        snd (on_message st r seen t (Frame (Chat m))) = [])"
proof (intro conjI impI)
  assume "get_ws st r = Some w \<and> Map_get (participantId w) (participants st) = None"
  then show "snd (on_message st r seen t (Frame (Chat m))) = []"
    by (simp add: on_message_chat_evicted)
next
  assume h: "reachable st \<and> get_ws st r = Some w
    \<and> CHAT_RATE_LIMIT_MS \<le> t - lastChatAt w \<and> truthy m \<and> sanitizeMessage m \<noteq> []
    \<and> Map_get (participantId w) (participants st) = Some a"
  then have wf: "wf st" and w: "get_ws st r = Some w"
    and g: "CHAT_RATE_LIMIT_MS \<le> t - lastChatAt w" and m: "truthy m" "sanitizeMessage m \<noteq> []"
    and a: "Map_get (participantId w) (participants st) = Some a"
    by (simp_all add: reachable_wf)
  have e: "(participantId w, a) \<in> set (participants st)"
    using a by (auto simp: Map_get_def dest: map_of_SomeD)
  with wf have ida: "p_id (heap st a) = participantId w" by (auto simp: wf_def)
  note d = chat_deliveries[OF wf w g m a, of seen]
  show "calcNearby st (heap st a) = [] \<Longrightarrow>
        snd (on_message st r seen t (Frame (Chat m))) =
          (if readyState w = OPEN then [(r, no_one_nearby)] else [])"
    using d by simp
  show "calcNearby st (heap st a) \<noteq> [] \<Longrightarrow>
        snd (on_message st r seen t (Frame (Chat m))) =
          map (\<lambda>c. (c, ChatMsg (participantId w) (p_name (heap st a)) (sanitizeMessage m) t))
            (chat_audience st (heap st a))"
    using d by simp
  show "readyState w = OPEN \<Longrightarrow> r \<in> set (chat_audience st (heap st a))"
    using get_ws_mem[OF w] get_ws_ref[OF w] ida
    by (force simp: chat_audience_def)
  show "\<forall>c \<in> set (chat_audience st (heap st a)).
          \<exists>s \<in> set (clients st). ws_ref s = c \<and> readyState s = OPEN
            \<and> (participantId s = participantId w
               \<or> (\<exists>b. (participantId s, b) \<in> set (participants st)
                    \<and> participantId s \<noteq> participantId w
                    \<and> within_radius (heap st a) (heap st b)))"
    unfolding chat_audience_def calcNearby_def ida by force
  show "\<forall>s \<in> set (clients st).
          readyState s = OPEN
          \<and> (\<exists>b. (participantId s, b) \<in> set (participants st)
                \<and> participantId s \<noteq> participantId w
                \<and> within_radius (heap st a) (heap st b))
          \<longrightarrow> ws_ref s \<in> set (chat_audience st (heap st a))"
    unfolding chat_audience_def calcNearby_def ida by force
qed

theorem chat_scoping_witness:
  "reachable three_clients \<and> get_ws three_clients 0 \<noteq> None \<and> get_ws three_clients 2 \<noteq> None
   \<and> reachable after_sweep \<and> get_ws after_sweep 0 \<noteq> None
   \<and> truthy (JStr (js '' hi  <b> '')) \<and> sanitizeMessage (JStr (js '' hi  <b> '')) \<noteq> []
   \<and> snd (on_message three_clients 0 5000 5001 (Frame (Chat (JStr (js '' hi  <b> ''))))) =
       [(0, ChatMsg (js ''A'') (js ''Guest-A'') (js ''hi b'') 5001),
        (Suc 0, ChatMsg (js ''A'') (js ''Guest-A'') (js ''hi b'') 5001)]
   \<and> snd (on_message three_clients 2 5000 5001 (Frame (Chat (JStr (js '' hi  <b> ''))))) =
       [(2, no_one_nearby)]
   \<and> snd (on_message after_sweep 0 50000 50000 (Frame (Chat (JStr (js '' hi  <b> ''))))) = []"
proof -
  have t: "truthy (JStr (js '' hi  <b> ''))" by (simp add: js_def)
  have n: "sanitizeMessage (JStr (js '' hi  <b> '')) \<noteq> []"
    unfolding sanitize_hi by (simp add: js_def)
  have a: "Map_get (participantId socket_A) (participants three_clients) = Some 0"
    and c: "Map_get (participantId socket_C) (participants three_clients) = Some 2"
    by (simp_all add: Map_get_def three_clients_fields)
  have e: "Map_get (participantId (socket_A\<lparr>isAlive := False\<rparr>)) (participants after_sweep) = None"
    by (simp add: Map_get_def sweep_run)
  have g: "CHAT_RATE_LIMIT_MS \<le> 5001 - lastChatAt socket_A"
    "CHAT_RATE_LIMIT_MS \<le> 5001 - lastChatAt socket_C"
    by (simp_all add: CHAT_RATE_LIMIT_MS_def)
  have 1: "snd (on_message three_clients 0 5000 5001 (Frame (Chat (JStr (js '' hi  <b> ''))))) =
       [(0, ChatMsg (js ''A'') (js ''Guest-A'') (js ''hi b'') 5001),
        (Suc 0, ChatMsg (js ''A'') (js ''Guest-A'') (js ''hi b'') 5001)]"
    using chat_scoping [of three_clients 0 socket_A 5001 "JStr (js '' hi  <b> '')" 0 5000]
      reachable_three_clients get_three_clients(1) t n a g(1)
    by (simp add: nearby_three_clients audience_three_clients sanitize_hi)
       (simp add: three_clients_fields)
  have 2: "snd (on_message three_clients 2 5000 5001 (Frame (Chat (JStr (js '' hi  <b> ''))))) =
       [(2, no_one_nearby)]"
    using chat_scoping [of three_clients 2 socket_C 5001 "JStr (js '' hi  <b> '')" 2 5000]
      reachable_three_clients get_three_clients(2) t n c g(2)
    by (simp add: nearby_three_clients)
  have 3: "snd (on_message after_sweep 0 50000 50000 (Frame (Chat (JStr (js '' hi  <b> ''))))) = []"
    using chat_scoping [of after_sweep 0 "socket_A\<lparr>isAlive := False\<rparr>" 50000
        "JStr (js '' hi  <b> '')" _ 50000] get_after_sweep e
    by simp
  show ?thesis
    using 1 2 3 reachable_three_clients reachable_after_sweep get_three_clients get_after_sweep t n
    by simp
qed

section \<open>Two frames within the interval\<close>

lemma on_message_move_accepted:
  assumes "get_ws st r = Some w" "MOVE_RATE_LIMIT_MS \<le> t - lastMoveAt w"
    "clamp (Math_round vx) 0 ROOM_width \<noteq> p_x (heap st r)
     \<or> clamp (Math_round vy) 0 ROOM_height \<noteq> p_y (heap st r)"
  shows "snd (on_message st r seen t (Frame (Move (Finite vx) (Finite vy)))) =
     map (\<lambda>c. (c, Moved (participantId w) (clamp (Math_round vx) 0 ROOM_width)
                     (clamp (Math_round vy) 0 ROOM_height)))
       (filter (\<lambda>c. c \<noteq> r) (open_refs st))
     @ (if readyState w = OPEN
        then [(r, Proximity (p_id (after_move st r seen t vx vy))
                    (calcNearby (fst (on_message st r seen t (Frame (Move (Finite vx) (Finite vy)))))
                       (after_move st r seen t vx vy)))]
        else [])"
  using assms get_ws_ref[OF assms(1)]
  by (auto simp: after_move_def on_message_def on_move_def Let_def heap_touch heap_upd_p
        broadcast_open_refs sendProximity_def send_def)

lemma two_messages:
  "run st [Message r sa ta da, Message r sb tb db] =
     (fst (on_message (fst (on_message st r sa ta da)) r sb tb db),
      snd (on_message st r sa ta da) @ snd (on_message (fst (on_message st r sa ta da)) r sb tb db))"
  by (simp add: Let_def)

text \<open>
  C7 as stated fails. On the first connection, a \<open>move\<close> with \<open>NaN\<close> passes the rate
  limit and spends it, and the valid \<open>move\<close> to (10, 20) five milliseconds later is
  dropped: two \<open>move\<close> frames, no position update and no frame. Two \<open>chat\<close> frames
  half a second apart with nobody near deliver no \<open>chat\<close> frame: the first is answered
  by \<open>chat_error\<close>, the second by nothing.
\<close>

theorem two_frames_none_accepted:
  "p_x (heap one_client 0) = 800 \<and> p_y (heap one_client 0) = 225
   \<and> snd (run one_client [Message 0 100 100 (Frame (Move NaN NaN)),
                           Message 0 105 105 (Frame (Move (Finite 10) (Finite 20)))]) = []
   \<and> p_x (heap (fst (run one_client [Message 0 100 100 (Frame (Move NaN NaN)),
                           Message 0 105 105 (Frame (Move (Finite 10) (Finite 20)))])) 0) = 800
   \<and> p_y (heap (fst (run one_client [Message 0 100 100 (Frame (Move NaN NaN)),
                           Message 0 105 105 (Frame (Move (Finite 10) (Finite 20)))])) 0) = 225
   \<and> snd (run one_client [Message 0 5000 5000 (Frame (Chat (JStr (js ''hi'')))),
                           Message 0 5500 5500 (Frame (Chat (JStr (js ''again''))))]) =
       [(0, no_one_nearby)]"
proof -
  let ?m1 = "on_message one_client 0 100 100 (Frame (Move NaN NaN))"
  let ?c1 = "on_message one_client 0 5000 5000 (Frame (Chat (JStr (js ''hi''))))"
  have g: "MOVE_RATE_LIMIT_MS \<le> 100 - lastMoveAt socket_A"
    "CHAT_RATE_LIMIT_MS \<le> 5000 - lastChatAt socket_A"
    by (simp_all add: MOVE_RATE_LIMIT_MS_def CHAT_RATE_LIMIT_MS_def)
  have m1: "?m1 = (upd_ws 0 (\<lambda>c. c\<lparr>lastMoveAt := 100\<rparr>) (touch 0 100 one_client), [])"
    using on_message_move_invalid[OF get_socket_A(1), of NaN NaN 100 100] g by simp
  have "move_gate (fst ?m1) 0 = Some 100"
    by (rule move_gate_after_move[OF get_socket_A(1) g(1)])
  then have m2: "on_message (fst ?m1) 0 105 105 (Frame (Move (Finite 10) (Finite 20))) =
      (touch 0 105 (fst ?m1), [])"
    by (rule move_dropped) (simp add: MOVE_RATE_LIMIT_MS_def)
  have h: "heap one_client 0 = \<lparr>p_id = js ''A'', p_name = js ''Guest-A'', p_x = 800, p_y = 225,
               p_color = js ''red'', p_lastSeen = 5\<rparr>"
    by (simp add: one_client_eq)
  have s: "sanitizeMessage (JStr (js ''hi'')) = js ''hi''"
    by (simp add: sanitizeMessage_def trim_def js_def isWhiteSpace_def slice0_def
          MAX_MESSAGE_LENGTH_def)
  have a: "Map_get (participantId socket_A) (participants one_client) = Some 0"
    by (simp add: Map_get_def one_client_fields)
  have n: "calcNearby one_client (heap one_client 0) = []"
    by (simp add: calcNearby_def one_client_fields h)
  have c1: "snd ?c1 = [(0, no_one_nearby)]"
    using chat_deliveries[OF reachable_wf[OF reachable_one_client] get_socket_A(1) g(2) _ _ a,
        of "JStr (js ''hi'')" 5000] n
    by (simp add: s)
  have "chat_gate (fst ?c1) 0 = Some 5000"
    by (rule chat_gate_after_chat[OF get_socket_A(1) g(2)])
  then have c2: "on_message (fst ?c1) 0 5500 5500 (Frame (Chat (JStr (js ''again'')))) =
      (touch 0 5500 (fst ?c1), [])"
    by (rule chat_dropped) (simp add: CHAT_RATE_LIMIT_MS_def)
  show ?thesis
    unfolding two_messages m2 c2
    by (simp add: c1 m1 heap_touch h)
qed

text \<open>
  C7, as the code has it. On a connection, once a \<open>move\<close> frame, valid or not, has
  passed the rate limit at time \<open>ta\<close>, a \<open>move\<close> frame arriving less than
  \<open>MOVE_RATE_LIMIT_MS\<close> after \<open>ta\<close> is dropped: it sends no frame and changes nothing
  but \<open>lastSeen\<close> and \<open>isAlive\<close>, whatever happened in between on other connections,
  in the heartbeat or with other frames of the same connection. The frame that passed
  is accepted when its coordinates are finite: they are stored, rounded and clamped,
  and when that changes the position \<open>moved\<close> goes to every other open socket and
  \<open>proximity\<close> to the sender. The same holds of two \<open>chat\<close> frames and
  \<open>CHAT_RATE_LIMIT_MS\<close>; there the frame that passed is delivered, to the audience
  of its sender, when it passes the sanitising, its sender is in the registry and
  somebody is near. The timestamp of either gate of a connection that stays open is
  changed by no event other than a frame of that type on that connection, and a frame
  arriving within the interval of its gate's timestamp is dropped in the same way.
\<close>

theorem rate_limiting:
  "(get_ws st r = Some w \<and> MOVE_RATE_LIMIT_MS \<le> ta - lastMoveAt w
      \<and> list_all (spares_move_gate r) es \<and> tb - ta < MOVE_RATE_LIMIT_MS \<longrightarrow>
      on_message (fst (run (fst (on_message st r sa ta (Frame (Move fx fy)))) es))
           r sb tb (Frame (Move nx ny)) =
          (touch r sb (fst (run (fst (on_message st r sa ta (Frame (Move fx fy)))) es)), []))
   \<and> (get_ws st r = Some w \<and> MOVE_RATE_LIMIT_MS \<le> ta - lastMoveAt w \<longrightarrow>
      p_x (after_move st r sa ta vx vy) = clamp (Math_round vx) 0 ROOM_width
      \<and> p_y (after_move st r sa ta vx vy) = clamp (Math_round vy) 0 ROOM_height
      \<and> (clamp (Math_round vx) 0 ROOM_width \<noteq> p_x (heap st r)
           \<or> clamp (Math_round vy) 0 ROOM_height \<noteq> p_y (heap st r) \<longrightarrow>
         snd (on_message st r sa ta (Frame (Move (Finite vx) (Finite vy)))) =
           map (\<lambda>c. (c, Moved (participantId w) (clamp (Math_round vx) 0 ROOM_width)
                           (clamp (Math_round vy) 0 ROOM_height)))
             (filter (\<lambda>c. c \<noteq> r) (open_refs st))
           @ (if readyState w = OPEN
              then [(r, Proximity (p_id (after_move st r sa ta vx vy))
                     (calcNearby
                        (fst (on_message st r sa ta (Frame (Move (Finite vx) (Finite vy)))))
                        (after_move st r sa ta vx vy)))]
              else [])))
   \<and> (get_ws st r = Some w \<and> CHAT_RATE_LIMIT_MS \<le> ta - lastChatAt w
      \<and> list_all (spares_chat_gate r) es \<and> tb - ta < CHAT_RATE_LIMIT_MS \<longrightarrow>
      on_message (fst (run (fst (on_message st r sa ta (Frame (Chat ma)))) es))
           r sb tb (Frame (Chat mb)) =
          (touch r sb (fst (run (fst (on_message st r sa ta (Frame (Chat ma)))) es)), []))
   \<and> (reachable st \<and> get_ws st r = Some w \<and> CHAT_RATE_LIMIT_MS \<le> ta - lastChatAt w
      \<and> truthy ma \<and> sanitizeMessage ma \<noteq> []
      \<and> Map_get (participantId w) (participants st) = Some a
      \<and> calcNearby st (heap st a) \<noteq> [] \<longrightarrow>
      snd (on_message st r sa ta (Frame (Chat ma))) =
        map (\<lambda>c. (c, ChatMsg (participantId w) (p_name (heap st a)) (sanitizeMessage ma) ta))
          (chat_audience st (heap st a))
      \<and> (readyState w = OPEN \<longrightarrow> r \<in> set (chat_audience st (heap st a))))
   \<and> (get_ws st r \<noteq> None \<and> list_all (spares_move_gate r) es \<longrightarrow>
      move_gate (fst (run st es)) r = move_gate st r)
   \<and> (get_ws st r \<noteq> None \<and> list_all (spares_chat_gate r) es \<longrightarrow>
      chat_gate (fst (run st es)) r = chat_gate st r)
   \<and> (move_gate st r = Some tp \<and> tb - tp < MOVE_RATE_LIMIT_MS \<longrightarrow>
      on_message st r sb tb (Frame (Move nx ny)) = (touch r sb st, []))
   \<and> (chat_gate st r = Some tp \<and> tb - tp < CHAT_RATE_LIMIT_MS \<longrightarrow>
      on_message st r sb tb (Frame (Chat mb)) = (touch r sb st, []))"
proof (intro conjI impI)
  assume h: "get_ws st r = Some w \<and> MOVE_RATE_LIMIT_MS \<le> ta - lastMoveAt w
      \<and> list_all (spares_move_gate r) es \<and> tb - ta < MOVE_RATE_LIMIT_MS"
  let ?st1 = "fst (on_message st r sa ta (Frame (Move fx fy)))"
  from h have g1: "move_gate ?st1 r = Some ta" by (simp add: move_gate_after_move)
  then have "get_ws ?st1 r \<noteq> None" by (auto simp: move_gate_def)
  with h g1 have "move_gate (fst (run ?st1 es)) r = Some ta" by (simp add: move_gate_run)
  with h show "on_message (fst (run ?st1 es)) r sb tb (Frame (Move nx ny)) =
          (touch r sb (fst (run ?st1 es)), [])"
    by (simp add: move_dropped)
next
  assume h: "get_ws st r = Some w \<and> MOVE_RATE_LIMIT_MS \<le> ta - lastMoveAt w"
  then have r: "ws_ref w = r" by (auto dest: get_ws_ref)
  show "p_x (after_move st r sa ta vx vy) = clamp (Math_round vx) 0 ROOM_width"
    using h r by (simp add: after_move_def heap_on_message heap_on_move heap_touch Let_def)
  show "p_y (after_move st r sa ta vx vy) = clamp (Math_round vy) 0 ROOM_height"
    using h r by (simp add: after_move_def heap_on_message heap_on_move heap_touch Let_def)
  assume "clamp (Math_round vx) 0 ROOM_width \<noteq> p_x (heap st r)
           \<or> clamp (Math_round vy) 0 ROOM_height \<noteq> p_y (heap st r)"
  with h show "snd (on_message st r sa ta (Frame (Move (Finite vx) (Finite vy)))) =
           map (\<lambda>c. (c, Moved (participantId w) (clamp (Math_round vx) 0 ROOM_width)
                           (clamp (Math_round vy) 0 ROOM_height)))
             (filter (\<lambda>c. c \<noteq> r) (open_refs st))
           @ (if readyState w = OPEN
              then [(r, Proximity (p_id (after_move st r sa ta vx vy))
                     (calcNearby
                        (fst (on_message st r sa ta (Frame (Move (Finite vx) (Finite vy)))))
                        (after_move st r sa ta vx vy)))]
              else [])"
    by (intro on_message_move_accepted) simp_all
next
  assume h: "get_ws st r = Some w \<and> CHAT_RATE_LIMIT_MS \<le> ta - lastChatAt w
      \<and> list_all (spares_chat_gate r) es \<and> tb - ta < CHAT_RATE_LIMIT_MS"
  let ?st1 = "fst (on_message st r sa ta (Frame (Chat ma)))"
  from h have g1: "chat_gate ?st1 r = Some ta" by (simp add: chat_gate_after_chat)
  then have "get_ws ?st1 r \<noteq> None" by (auto simp: chat_gate_def)
  with h g1 have "chat_gate (fst (run ?st1 es)) r = Some ta" by (simp add: chat_gate_run)
  with h show "on_message (fst (run ?st1 es)) r sb tb (Frame (Chat mb)) =
          (touch r sb (fst (run ?st1 es)), [])"
    by (simp add: chat_dropped)
next
  assume h: "reachable st \<and> get_ws st r = Some w \<and> CHAT_RATE_LIMIT_MS \<le> ta - lastChatAt w
      \<and> truthy ma \<and> sanitizeMessage ma \<noteq> []
      \<and> Map_get (participantId w) (participants st) = Some a
      \<and> calcNearby st (heap st a) \<noteq> []"
  then have wf: "wf st" and w: "get_ws st r = Some w"
    and g: "CHAT_RATE_LIMIT_MS \<le> ta - lastChatAt w" and m: "truthy ma" "sanitizeMessage ma \<noteq> []"
    and a: "Map_get (participantId w) (participants st) = Some a"
    and n: "calcNearby st (heap st a) \<noteq> []"
    by (simp_all add: reachable_wf)
  show "snd (on_message st r sa ta (Frame (Chat ma))) =
        map (\<lambda>c. (c, ChatMsg (participantId w) (p_name (heap st a)) (sanitizeMessage ma) ta))
          (chat_audience st (heap st a))"
    using chat_deliveries[OF wf w g m a, of sa] n by simp
  have "(participantId w, a) \<in> set (participants st)"
    using a by (auto simp: Map_get_def dest: map_of_SomeD)
  with wf have ida: "p_id (heap st a) = participantId w" by (auto simp: wf_def)
  show "readyState w = OPEN \<Longrightarrow> r \<in> set (chat_audience st (heap st a))"
    using get_ws_mem[OF w] get_ws_ref[OF w] ida
    by (force simp: chat_audience_def)
next
  assume "get_ws st r \<noteq> None \<and> list_all (spares_move_gate r) es"
  then show "move_gate (fst (run st es)) r = move_gate st r" by (simp add: move_gate_run)
next
  assume "get_ws st r \<noteq> None \<and> list_all (spares_chat_gate r) es"
  then show "chat_gate (fst (run st es)) r = chat_gate st r" by (simp add: chat_gate_run)
next
  assume "move_gate st r = Some tp \<and> tb - tp < MOVE_RATE_LIMIT_MS"
  then show "on_message st r sb tb (Frame (Move nx ny)) = (touch r sb st, [])"
    by (simp add: move_dropped)
next
  assume "chat_gate st r = Some tp \<and> tb - tp < CHAT_RATE_LIMIT_MS"
  then show "on_message st r sb tb (Frame (Chat mb)) = (touch r sb st, [])"
    by (simp add: chat_dropped)
qed

lemma open_refs_three_clients: "open_refs three_clients = [0, Suc 0, 2]"
  by (simp add: open_refs_def three_clients_fields)

theorem rate_limiting_witness:
  "reachable three_clients \<and> get_ws three_clients 0 \<noteq> None
   \<and> MOVE_RATE_LIMIT_MS \<le> 100 - lastMoveAt socket_A
   \<and> CHAT_RATE_LIMIT_MS \<le> 5000 - lastChatAt socket_A
   \<and> list_all (spares_move_gate 0)
        [Message (Suc 0) 103 103 (Frame (Move (Finite 1) (Finite 2))),
         Heartbeat 104 ping_never_throws, Message 0 105 105 (Frame Ping)]
   \<and> list_all (spares_chat_gate 0)
        [Message (Suc 0) 5100 5100 (Frame (Chat (JStr (js ''yo'')))),
         Message 0 5200 5200 (Frame (Move (Finite 1) (Finite 2)))]
   \<and> (110::int) - 100 < MOVE_RATE_LIMIT_MS \<and> (5999::int) - 5000 < CHAT_RATE_LIMIT_MS
   \<and> p_x (after_move three_clients 0 100 100 10 20) = 10
   \<and> p_y (after_move three_clients 0 100 100 10 20) = 20
   \<and> map fst (snd (on_message three_clients 0 100 100 (Frame (Move (Finite 10) (Finite 20)))))
       = [Suc 0, 2, 0]
   \<and> snd (on_message
        (fst (run (fst (on_message three_clients 0 100 100 (Frame (Move (Finite 10) (Finite 20)))))
           [Message (Suc 0) 103 103 (Frame (Move (Finite 1) (Finite 2))),
            Heartbeat 104 ping_never_throws, Message 0 105 105 (Frame Ping)]))
        0 110 110 (Frame (Move (Finite 50) (Finite 60)))) = []
   \<and> snd (on_message three_clients 0 5000 5000 (Frame (Chat (JStr (js '' hi  <b> ''))))) =
       [(0, ChatMsg (js ''A'') (js ''Guest-A'') (js ''hi b'') 5000),
        (Suc 0, ChatMsg (js ''A'') (js ''Guest-A'') (js ''hi b'') 5000)]
   \<and> snd (on_message
        (fst (run (fst (on_message three_clients 0 5000 5000
                         (Frame (Chat (JStr (js '' hi  <b> ''))))))
           [Message (Suc 0) 5100 5100 (Frame (Chat (JStr (js ''yo'')))),
            Message 0 5200 5200 (Frame (Move (Finite 1) (Finite 2)))]))
        0 5999 5999 (Frame (Chat (JStr (js ''again''))))) = []
   \<and> move_gate (fst (run three_clients
        [Message (Suc 0) 103 103 (Frame (Move (Finite 1) (Finite 2))),
         Heartbeat 104 ping_never_throws, Message 0 105 105 (Frame Ping)])) 0 = Some 0"
proof -
  have g: "MOVE_RATE_LIMIT_MS \<le> 100 - lastMoveAt socket_A"
    "CHAT_RATE_LIMIT_MS \<le> 5000 - lastChatAt socket_A"
    "(110::int) - 100 < MOVE_RATE_LIMIT_MS" "(5999::int) - 5000 < CHAT_RATE_LIMIT_MS"
    by (simp_all add: MOVE_RATE_LIMIT_MS_def CHAT_RATE_LIMIT_MS_def)
  have c: "clamp (Math_round 10) 0 ROOM_width = 10" "clamp (Math_round 20) 0 ROOM_height = 20"
    by (simp_all add: clamp_def Math_round_def ROOM_width_def ROOM_height_def floor_eq_iff)
  have m: "move_gate three_clients 0 = Some 0"
    by (simp add: move_gate_def get_three_clients)
  have t: "truthy (JStr (js '' hi  <b> ''))" by (simp add: js_def)
  have n: "sanitizeMessage (JStr (js '' hi  <b> '')) \<noteq> []"
    unfolding sanitize_hi by (simp add: js_def)
  have a: "Map_get (participantId socket_A) (participants three_clients) = Some 0"
    by (simp add: Map_get_def three_clients_fields)
  have 1: "p_x (after_move three_clients 0 100 100 10 20) = 10
      \<and> p_y (after_move three_clients 0 100 100 10 20) = 20
      \<and> map fst (snd (on_message three_clients 0 100 100 (Frame (Move (Finite 10) (Finite 20)))))
          = [Suc 0, 2, 0]
      \<and> snd (on_message
        (fst (run (fst (on_message three_clients 0 100 100 (Frame (Move (Finite 10) (Finite 20)))))
           [Message (Suc 0) 103 103 (Frame (Move (Finite 1) (Finite 2))),
            Heartbeat 104 ping_never_throws, Message 0 105 105 (Frame Ping)]))
        0 110 110 (Frame (Move (Finite 50) (Finite 60)))) = []
      \<and> move_gate (fst (run three_clients
        [Message (Suc 0) 103 103 (Frame (Move (Finite 1) (Finite 2))),
         Heartbeat 104 ping_never_throws, Message 0 105 105 (Frame Ping)])) 0 = Some 0"
    using rate_limiting [where st = three_clients and r = 0 and w = socket_A and ta = 100
        and es = "[Message (Suc 0) 103 103 (Frame (Move (Finite 1) (Finite 2))),
          Heartbeat 104 ping_never_throws, Message 0 105 105 (Frame Ping)]"
        and tb = 110 and sa = 100 and fx = "Finite 10" and fy = "Finite 20"
        and vx = 10 and vy = 20 and sb = 110 and nx = "Finite 50" and ny = "Finite 60"]
      get_three_clients(1) g
    by (simp add: c m open_refs_three_clients three_clients_fields)
  have 2: "snd (on_message three_clients 0 5000 5000 (Frame (Chat (JStr (js '' hi  <b> ''))))) =
       [(0, ChatMsg (js ''A'') (js ''Guest-A'') (js ''hi b'') 5000),
        (Suc 0, ChatMsg (js ''A'') (js ''Guest-A'') (js ''hi b'') 5000)]
      \<and> snd (on_message
        (fst (run (fst (on_message three_clients 0 5000 5000
                         (Frame (Chat (JStr (js '' hi  <b> ''))))))
           [Message (Suc 0) 5100 5100 (Frame (Chat (JStr (js ''yo'')))),
            Message 0 5200 5200 (Frame (Move (Finite 1) (Finite 2)))]))
        0 5999 5999 (Frame (Chat (JStr (js ''again''))))) = []"
    using rate_limiting [where st = three_clients and r = 0 and w = socket_A and ta = 5000
        and es = "[Message (Suc 0) 5100 5100 (Frame (Chat (JStr (js ''yo'')))),
          Message 0 5200 5200 (Frame (Move (Finite 1) (Finite 2)))]"
        and tb = 5999 and sa = 5000 and ma = "JStr (js '' hi  <b> '')" and sb = 5999
        and mb = "JStr (js ''again'')" and a = 0]
      reachable_three_clients get_three_clients(1) g t n a
    by (simp add: nearby_three_clients audience_three_clients sanitize_hi)
       (simp add: three_clients_fields)
  show ?thesis
    using 1 2 reachable_three_clients get_three_clients(1) g by simp
qed

section \<open>After a close\<close>

lemma in_send: "d \<in> set (send w m) \<Longrightarrow> snd d = m"
  by (auto simp: send_def split: if_splits)

lemma in_broadcast: "d \<in> set (broadcast st m e) \<Longrightarrow> snd d = m"
  by (auto simp: broadcast_def)

lemma in_sendToParticipants: "d \<in> set (sendToParticipants st m ts e) \<Longrightarrow> snd d = m"
  by (auto simp: sendToParticipants_def)

lemma snapshot_free:
  assumes "wf st" "i \<notin> fst ` set (participants st)"
  shows "\<not> tells_of i (State (snapshot st))"
  using assms by (simp add: snapshot_ids)

lemma tells_on_join:
  assumes "d \<in> set (snd (on_join st w n))" "tells_of i (snd d)"
  shows "snd d = State (snapshot (fst (on_join st w n)))"
  using assms
  by (auto simp: on_join_def Let_def split: if_splits dest!: in_send in_broadcast)

lemma tells_on_move:
  assumes "d \<in> set (snd (on_move st w t nx ny))"
  shows "\<not> tells_of i (snd d)"
  using assms
  by (auto simp: on_move_def Let_def sendProximity_def split: if_splits jsnum.splits
        dest!: in_send in_broadcast)

lemma tells_on_rename:
  assumes "d \<in> set (snd (on_rename st w n))"
  shows "\<not> tells_of i (snd d)"
  using assms
  by (auto simp: on_rename_def Let_def split: if_splits dest!: in_broadcast)

lemma tells_on_chat:
  assumes "d \<in> set (snd (on_chat st w t m))"
  shows "\<not> tells_of i (snd d)"
  using assms
  by (auto simp: on_chat_def Let_def split: if_splits option.splits
        dest!: in_send in_sendToParticipants)

lemma tells_on_message:
  assumes "d \<in> set (snd (on_message st r s t d0))" "tells_of i (snd d)"
  shows "snd d = State (snapshot (fst (on_message st r s t d0)))"
proof (cases "get_ws st r")
  case None
  with assms show ?thesis by (simp add: on_message_def)
next
  case (Some w0)
  show ?thesis
  proof (cases d0)
    case Malformed
    with assms Some show ?thesis by (simp add: on_message_def)
  next
    case (Frame f)
    show ?thesis
      using assms Some Frame
      by (cases f)
         (auto simp: on_message_def Let_def dest: tells_on_join tells_on_move tells_on_rename
            tells_on_chat in_send)
  qed
qed

lemma tells_on_connection:
  assumes "d \<in> set (snd (on_connection st ident rx ry col t))" "tells_of i (snd d)"
  shows "snd d = State (snapshot (fst (on_connection st ident rx ry col t)))"
  using assms
  by (auto simp: on_connection_def Let_def dest!: in_send in_broadcast)

lemma tells_on_close:
  assumes "d \<in> set (snd (on_close st r))"
  shows "\<exists>w. get_ws st r = Some w \<and> snd d = Left (participantId w)"
  using assms
  by (auto simp: on_close_def Let_def split: option.splits dest!: in_broadcast)

lemma tells_heartbeat:
  assumes "d \<in> set (snd (heartbeat st t pt))"
  shows "\<exists>k. k \<in> fst ` set (participants st) \<and> snd d = Left k"
  using assms
  by (force simp: heartbeat_def Let_def deliveries_evict)

lemma after_on_connection:
  "sock_ids (fst (on_connection st ident rx ry col t)) = sock_ids st @ [(nextRef st, ident)]"
  "participants (fst (on_connection st ident rx ry col t)) =
     Map_set ident (nextRef st) (participants st)"
  by (simp_all add: on_connection_def Let_def sock_ids_def)

lemma after_on_pong:
  "sock_ids (on_pong st r t) = sock_ids st" "participants (on_pong st r t) = participants st"
  by (simp_all add: on_pong_def split: option.splits)

lemma after_on_close:
  "set (sock_ids (fst (on_close st r))) \<subseteq> set (sock_ids st)"
  "set (participants (fst (on_close st r))) \<subseteq> set (participants st)"
  by (auto simp: on_close_def Let_def sock_ids_def Map_delete_def split: option.splits)

lemma after_heartbeat:
  "sock_ids (fst (heartbeat st t pt)) = sock_ids st"
  "set (participants (fst (heartbeat st t pt))) \<subseteq> set (participants st)"
proof -
  have "sock_ids (fst (heartbeat st t pt)) = sock_ids (st\<lparr>clients := map (probe pt) (clients st)\<rparr>)"
    by (simp add: heartbeat_def Let_def sock_ids_def)
  then show "sock_ids (fst (heartbeat st t pt)) = sock_ids st"
    by (simp add: sock_ids_probe)
  show "set (participants (fst (heartbeat st t pt))) \<subseteq> set (participants st)"
    by (auto simp: heartbeat_def Let_def participants_evict)
qed

lemma keys_Map_set_other:
  "i \<notin> fst ` set m \<Longrightarrow> k \<noteq> i \<Longrightarrow> i \<notin> fst ` set (Map_set k v m)"
  using set_Map_set[of k v m] by force

lemma gone_step:
  assumes g: "gone i st" and c: "\<not> connects_as i e"
  shows "gone i (fst (step st e))"
proof -
  from g have wf: "wf st" and s: "i \<notin> snd ` set (sock_ids st)"
    and k: "i \<notin> fst ` set (participants st)" by (simp_all add: gone_def)
  have wf': "wf (fst (step st e))" using wf by (rule wf_step)
  show ?thesis
  proof (cases e)
    case (Connection ident rx ry col t)
    with c have "ident \<noteq> i" by simp
    with s k wf' Connection show ?thesis
      by (auto simp: gone_def after_on_connection dest: keys_Map_set_other)
  next
    case (Message r seen t d)
    have "i \<notin> fst ` set (participants (fst (on_message st r seen t d)))"
      using participants_on_message[of st r seen t d]
    proof
      assume "participants (fst (on_message st r seen t d)) = participants st"
      with k show ?thesis by simp
    next
      assume "\<exists>w. get_ws st r = Some w
        \<and> participants (fst (on_message st r seen t d)) = Map_set (participantId w) r (participants st)"
      then obtain w where w: "get_ws st r = Some w"
        and p: "participants (fst (on_message st r seen t d)) =
                  Map_set (participantId w) r (participants st)" by blast
      from get_ws_sock_ids[OF w] s have "participantId w \<noteq> i" by force
      with k show ?thesis unfolding p by (rule keys_Map_set_other)
    qed
    with s wf' Message show ?thesis by (simp add: gone_def)
  next
    case (PongEv r t)
    with s k wf' show ?thesis by (simp add: gone_def after_on_pong)
  next
    case (Close r)
    with s k wf' after_on_close[of st r] show ?thesis by (auto simp: gone_def)
  next
    case (ErrorEv r)
    with g show ?thesis by simp
  next
    case (Heartbeat t pt)
    with s k wf' after_heartbeat[of st t pt] show ?thesis by (auto simp: gone_def)
  qed
qed

lemma silent_step:
  assumes g: "gone i st" and c: "\<not> connects_as i e" and d: "d \<in> set (snd (step st e))"
  shows "\<not> tells_of i (snd d)"
proof
  assume t: "tells_of i (snd d)"
  from g have wf: "wf st" and s: "i \<notin> snd ` set (sock_ids st)"
    and k: "i \<notin> fst ` set (participants st)" by (simp_all add: gone_def)
  from gone_step[OF g c] have wf': "wf (fst (step st e))"
    and k': "i \<notin> fst ` set (participants (fst (step st e)))" by (simp_all add: gone_def)
  show False
  proof (cases e)
    case (Connection ident rx ry col t')
    with d t have "snd d = State (snapshot (fst (step st e)))"
      by (auto dest: tells_on_connection)
    with t snapshot_free[OF wf' k'] show False by simp
  next
    case (Message r seen t' d0)
    with d t have "snd d = State (snapshot (fst (step st e)))"
      by (auto dest: tells_on_message)
    with t snapshot_free[OF wf' k'] show False by simp
  next
    case (PongEv r t')
    with d show False by simp
  next
    case (Close r)
    with d obtain w where w: "get_ws st r = Some w" and l: "snd d = Left (participantId w)"
      by (auto dest: tells_on_close)
    from get_ws_sock_ids[OF w] s have "participantId w \<noteq> i" by force
    with t l show False by simp
  next
    case (ErrorEv r)
    with d show False by simp
  next
    case (Heartbeat t' pt)
    with d have "d \<in> set (snd (heartbeat st t' pt))" by simp
    from tells_heartbeat[OF this]
    obtain k0 where "k0 \<in> fst ` set (participants st)" "snd d = Left k0" by blast
    with k t show False by auto
  qed
qed

lemma silent_run:
  assumes "gone i st" "list_all (\<lambda>e. \<not> connects_as i e) es"
  shows "\<forall>d \<in> set (snd (run st es)). \<not> tells_of i (snd d)"
  using assms
proof (induction es arbitrary: st)
  case Nil
  show ?case by simp
next
  case (Cons e es)
  then have g: "gone i (fst (step st e))" by (simp add: gone_step)
  have "\<forall>d \<in> set (snd (step st e)). \<not> tells_of i (snd d)"
    using Cons.prems by (auto dest: silent_step)
  moreover have "\<forall>d \<in> set (snd (run (fst (step st e)) es)). \<not> tells_of i (snd d)"
    using Cons.IH[OF g] Cons.prems by simp
  ultimately show ?case by (auto simp: Let_def)
qed

lemma gone_after_close:
  assumes wf: "wf st" and w: "get_ws st r = Some w"
    and u: "map ws_ref (filter (\<lambda>c. participantId c = participantId w) (clients st)) = [r]"
  shows "gone (participantId w) (fst (on_close st r))"
proof -
  have wf': "wf (fst (on_close st r))" using wf by (rule wf_on_close)
  have "\<forall>c \<in> set (clients st). participantId c = participantId w \<longrightarrow> ws_ref c = r"
  proof (intro ballI impI)
    fix c assume "c \<in> set (clients st)" "participantId c = participantId w"
    then have "ws_ref c \<in> set (map ws_ref (filter (\<lambda>c. participantId c = participantId w) (clients st)))"
      by auto
    then show "ws_ref c = r" unfolding u by simp
  qed
  then have s: "participantId w \<notin> snd ` set (sock_ids (fst (on_close st r)))"
    by (auto simp: on_close_found[OF w] sock_ids_def)
  have k: "participantId w \<notin> fst ` set (participants (fst (on_close st r)))"
    by (auto simp: on_close_found[OF w] Map_delete_def)
  from wf' s k show ?thesis by (simp add: gone_def)
qed

text \<open>
  C1, as the code has it. In a reachable state, the close of a connection removes
  its socket and its id, so that the id is in no snapshot taken then, and sends
  \<open>left\<close> for that id once to every remaining open socket and nothing else; and if
  no other socket has that id, then whatever events follow, short of a new connection
  under the same id, no frame sent after the close is a \<open>left\<close> for the id or a
  \<open>state\<close> snapshot that holds it. A heartbeat removes exactly the registry entries
  whose \<open>lastSeen\<close> is before the cutoff and sends, for each removed id, \<open>left\<close> once
  to every socket still open after the probing, and nothing else; no removed id is in
  a snapshot taken then.
\<close>

theorem removal_broadcast:
  "(reachable st \<and> get_ws st r = Some w \<longrightarrow>
      snd (on_close st r) =
        map (\<lambda>c. (c, Left (participantId w))) (open_refs (fst (on_close st r)))
      \<and> distinct (snd (on_close st r))
      \<and> get_ws (fst (on_close st r)) r = None
      \<and> participantId w \<notin> set (map c_id (snapshot (fst (on_close st r)))))
   \<and> (reachable st \<and> get_ws st r = Some w
      \<and> map ws_ref (filter (\<lambda>c. participantId c = participantId w) (clients st)) = [r]
      \<and> list_all (\<lambda>e. \<not> connects_as (participantId w) e) es \<longrightarrow>
      (\<forall>d \<in> set (snd (run (fst (on_close st r)) es)). \<not> tells_of (participantId w) (snd d)))
   \<and> (reachable st \<longrightarrow>
      participants (fst (heartbeat st t pt)) =
        filter (\<lambda>e. \<not> stale st (t - CONNECTION_TTL_MS) e) (participants st)
      \<and> snd (heartbeat st t pt) =
          concat (map (\<lambda>e. map (\<lambda>c. (c, Left (fst e))) (open_refs (fst (heartbeat st t pt))))
                    (filter (stale st (t - CONNECTION_TTL_MS)) (participants st)))
      \<and> distinct (snd (heartbeat st t pt))
      \<and> (\<forall>e \<in> set (participants st). stale st (t - CONNECTION_TTL_MS) e \<longrightarrow>
           fst e \<notin> set (map c_id (snapshot (fst (heartbeat st t pt))))))"
proof (intro conjI impI)
  assume "reachable st \<and> get_ws st r = Some w"
  then have wf: "wf st" and w: "get_ws st r = Some w" by (simp_all add: reachable_wf)
  show "snd (on_close st r) =
        map (\<lambda>c. (c, Left (participantId w))) (open_refs (fst (on_close st r)))"
    by (rule close_effect(1)[OF wf w])
  show "distinct (snd (on_close st r))" by (rule close_effect(2)[OF wf w])
  show "get_ws (fst (on_close st r)) r = None" by (rule close_effect(3)[OF wf w])
  show "participantId w \<notin> set (map c_id (snapshot (fst (on_close st r))))"
    by (rule close_effect(4)[OF wf w])
next
  assume h: "reachable st \<and> get_ws st r = Some w
      \<and> map ws_ref (filter (\<lambda>c. participantId c = participantId w) (clients st)) = [r]
      \<and> list_all (\<lambda>e. \<not> connects_as (participantId w) e) es"
  then have "gone (participantId w) (fst (on_close st r))"
    by (intro gone_after_close) (simp_all add: reachable_wf)
  with h show "\<forall>d \<in> set (snd (run (fst (on_close st r)) es)). \<not> tells_of (participantId w) (snd d)"
    by (intro silent_run) simp_all
next
  assume "reachable st"
  then have wf: "wf st" by (rule reachable_wf)
  show "participants (fst (heartbeat st t pt)) =
        filter (\<lambda>e. \<not> stale st (t - CONNECTION_TTL_MS) e) (participants st)"
    by (rule sweep_effect(1)[OF wf])
  show "snd (heartbeat st t pt) =
          concat (map (\<lambda>e. map (\<lambda>c. (c, Left (fst e))) (open_refs (fst (heartbeat st t pt))))
                    (filter (stale st (t - CONNECTION_TTL_MS)) (participants st)))"
    by (rule sweep_effect(2)[OF wf])
  show "distinct (snd (heartbeat st t pt))" by (rule sweep_effect(3)[OF wf])
  show "\<forall>e \<in> set (participants st). stale st (t - CONNECTION_TTL_MS) e \<longrightarrow>
           fst e \<notin> set (map c_id (snapshot (fst (heartbeat st t pt))))"
    by (rule sweep_effect(4)[OF wf])
qed

theorem removal_broadcast_witness:
  "reachable two_clients \<and> get_ws two_clients 0 \<noteq> None
   \<and> map ws_ref (filter (\<lambda>c. participantId c = participantId socket_A) (clients two_clients)) = [0]
   \<and> list_all (\<lambda>e. \<not> connects_as (participantId socket_A) e) after_close_events
   \<and> snd (on_close two_clients 0) = [(Suc 0, Left (js ''A''))]
   \<and> get_ws (fst (on_close two_clients 0)) 0 = None
   \<and> (Suc 0, Left (js ''A'')) \<notin> set (snd (run (fst (on_close two_clients 0)) after_close_events))
   \<and> participants (fst (heartbeat two_clients 30006 ping_never_throws)) = [(js ''B'', Suc 0)]
   \<and> snd (heartbeat two_clients 30006 ping_never_throws) =
       [(0, Left (js ''A'')), (Suc 0, Left (js ''A''))]"
proof -
  have u: "map ws_ref (filter (\<lambda>c. participantId c = participantId socket_A) (clients two_clients)) = [0]"
    by (simp add: two_clients_fields)
  have e: "list_all (\<lambda>e. \<not> connects_as (participantId socket_A) e) after_close_events"
    by (simp add: after_close_events_def js_def)
  have "\<forall>d \<in> set (snd (run (fst (on_close two_clients 0)) after_close_events)).
          \<not> tells_of (js ''A'') (snd d)"
    using removal_broadcast [of two_clients 0 socket_A after_close_events 30006 ping_never_throws]
      reachable_two_clients get_socket_A(2) u e
    by simp
  then have n: "(Suc 0, Left (js ''A''))
      \<notin> set (snd (run (fst (on_close two_clients 0)) after_close_events))"
    by force
  show ?thesis
    using removal_broadcast [of two_clients 0 socket_A after_close_events 30006 ping_never_throws]
      reachable_two_clients get_socket_A(2) u e n
    by (simp add: stale_two_clients open_refs_after_close open_refs_after_heartbeat)
qed

end
